theory Spec2Isabelle
  imports Complex_Main "HOL-Library.AList"
begin

section \<open>JavaScript numbers\<close>

text \<open>
  A JavaScript number is modelled as a real number or one of the three special values
  of IEEE-754 arithmetic. Rounding is abstracted (finite values are exact reals) and the
  sign of zero is not tracked: \<open>Fin 0\<close> stands for \<open>+0\<close>. The special values are
  kept because the code produces them: \<open>parseFloat\<close> of a malformed string, an array read
  out of range, a division by zero and the default scale extent \<open>[0, Infinity]\<close>.
\<close>

datatype jsnum = NaN | NegInf | Fin real | PosInf

fun js_lt :: "jsnum \<Rightarrow> jsnum \<Rightarrow> bool" where
  "js_lt NaN _ = False"
| "js_lt _ NaN = False"
| "js_lt (Fin a) (Fin b) = (a < b)"
| "js_lt NegInf NegInf = False"
| "js_lt NegInf _ = True"
| "js_lt _ NegInf = False"
| "js_lt PosInf _ = False"
| "js_lt _ PosInf = True"

fun js_le :: "jsnum \<Rightarrow> jsnum \<Rightarrow> bool" where
  "js_le NaN _ = False"
| "js_le _ NaN = False"
| "js_le (Fin a) (Fin b) = (a \<le> b)"
| "js_le NegInf _ = True"
| "js_le _ PosInf = True"
| "js_le _ NegInf = False"
| "js_le PosInf _ = False"

definition js_gt :: "jsnum \<Rightarrow> jsnum \<Rightarrow> bool" where
  "js_gt a b = js_lt b a"

definition js_ge :: "jsnum \<Rightarrow> jsnum \<Rightarrow> bool" where
  "js_ge a b = js_le b a"

fun js_neg :: "jsnum \<Rightarrow> jsnum" where
  "js_neg NaN = NaN"
| "js_neg NegInf = PosInf"
| "js_neg PosInf = NegInf"
| "js_neg (Fin a) = Fin (- a)"

fun js_add :: "jsnum \<Rightarrow> jsnum \<Rightarrow> jsnum" where
  "js_add NaN _ = NaN"
| "js_add _ NaN = NaN"
| "js_add (Fin a) (Fin b) = Fin (a + b)"
| "js_add PosInf NegInf = NaN"
| "js_add NegInf PosInf = NaN"
| "js_add PosInf _ = PosInf"
| "js_add NegInf _ = NegInf"
| "js_add _ PosInf = PosInf"
| "js_add _ NegInf = NegInf"

definition js_sub :: "jsnum \<Rightarrow> jsnum \<Rightarrow> jsnum" where
  "js_sub a b = js_add a (js_neg b)"

text \<open>The sign of a number, for products and quotients with an infinite operand.\<close>

fun js_sgn :: "jsnum \<Rightarrow> int" where
  "js_sgn NaN = 0"
| "js_sgn NegInf = - 1"
| "js_sgn PosInf = 1"
| "js_sgn (Fin a) = (if a < 0 then - 1 else if a = 0 then 0 else 1)"

definition js_inf :: "int \<Rightarrow> jsnum" where
  "js_inf s = (if s < 0 then NegInf else if s = 0 then NaN else PosInf)"

fun js_mul :: "jsnum \<Rightarrow> jsnum \<Rightarrow> jsnum" where
  "js_mul NaN _ = NaN"
| "js_mul _ NaN = NaN"
| "js_mul (Fin a) (Fin b) = Fin (a * b)"
| "js_mul a b = js_inf (js_sgn a * js_sgn b)"

text \<open>
  Division: a finite non-zero number over zero is an infinity of the numerator's sign
  (the zero is taken as \<open>+0\<close>), zero over zero and infinity over infinity are \<open>NaN\<close>,
  a finite number over an infinity is zero.
\<close>

fun js_div :: "jsnum \<Rightarrow> jsnum \<Rightarrow> jsnum" where
  "js_div NaN _ = NaN"
| "js_div _ NaN = NaN"
| "js_div (Fin a) (Fin b) = (if b = 0 then js_inf (js_sgn (Fin a)) else Fin (a / b))"
| "js_div (Fin a) _ = Fin 0"
| "js_div a (Fin b) = js_inf (js_sgn a * (if b < 0 then - 1 else 1))"
| "js_div _ _ = NaN"

fun js_abs :: "jsnum \<Rightarrow> jsnum" where
  "js_abs NaN = NaN"
| "js_abs (Fin a) = Fin \<bar>a\<bar>"
| "js_abs _ = PosInf"

text \<open>\<open>Math.sqrt\<close>: \<open>NaN\<close> on a negative argument.\<close>

fun js_sqrt :: "jsnum \<Rightarrow> jsnum" where
  "js_sqrt NaN = NaN"
| "js_sqrt NegInf = NaN"
| "js_sqrt PosInf = PosInf"
| "js_sqrt (Fin a) = (if a < 0 then NaN else Fin (sqrt a))"

text \<open>\<open>Math.pow(2, y)\<close>.\<close>

fun js_pow2 :: "jsnum \<Rightarrow> jsnum" where
  "js_pow2 NaN = NaN"
| "js_pow2 NegInf = Fin 0"
| "js_pow2 PosInf = PosInf"
| "js_pow2 (Fin y) = Fin (2 powr y)"

text \<open>\<open>Math.min\<close> and \<open>Math.max\<close> of two arguments: \<open>NaN\<close> if either is.\<close>

definition js_min :: "jsnum \<Rightarrow> jsnum \<Rightarrow> jsnum" where
  "js_min a b = (if a = NaN \<or> b = NaN then NaN else if js_le a b then a else b)"

definition js_max :: "jsnum \<Rightarrow> jsnum \<Rightarrow> jsnum" where
  "js_max a b = (if a = NaN \<or> b = NaN then NaN else if js_le a b then b else a)"

text \<open>
  \<open>Math.hypot\<close> of two arguments: an infinite argument gives \<open>Infinity\<close> even beside
  a \<open>NaN\<close>; otherwise \<open>NaN\<close> if either is.
\<close>

definition js_hypot :: "jsnum \<Rightarrow> jsnum \<Rightarrow> jsnum" where
  "js_hypot a b =
     (if a = PosInf \<or> a = NegInf \<or> b = PosInf \<or> b = NegInf then PosInf
      else js_sqrt (js_add (js_mul a a) (js_mul b b)))"

text \<open>Truthiness of a number: \<open>0\<close> and \<open>NaN\<close> are falsy.\<close>

definition js_truthy :: "jsnum \<Rightarrow> bool" where
  "js_truthy a = (a \<noteq> NaN \<and> a \<noteq> Fin 0)"

text \<open>
  Reading a number array: an index out of range reads \<open>undefined\<close>, which every use in
  this code coerces to \<open>NaN\<close> (arithmetic, comparison, \<open>Math.max\<close>, \<open>Math.hypot\<close>).
\<close>

definition arr_get :: "jsnum list \<Rightarrow> int \<Rightarrow> jsnum" where
  "arr_get a i = (if 0 \<le> i \<and> i < int (length a) then a ! nat i else NaN)"

text \<open>Reading a string array: out of range is \<open>undefined\<close>, here \<open>None\<close>.\<close>

definition str_get :: "string list \<Rightarrow> int \<Rightarrow> string option" where
  "str_get a i = (if 0 \<le> i \<and> i < int (length a) then Some (a ! nat i) else None)"

section \<open>Binary search\<close>

text \<open>
  \<open>bisectLeft\<close> and \<open>bisectRight\<close> are the functions of d3-array (version 3) for the
  natural order: the insertion point of \<open>x\<close> in \<open>a[lo..hi)\<close>, before (left) or after
  (right) any entries equal to \<open>x\<close>. A \<open>NaN\<close> query returns \<open>hi\<close> at once. The
  midpoint \<open>(lo + hi) >>> 1\<close> is the integer half for every array length JavaScript allows.
\<close>

function bisectLeftLoop :: "jsnum list \<Rightarrow> jsnum \<Rightarrow> nat \<Rightarrow> nat \<Rightarrow> nat" where
  "bisectLeftLoop a x lo hi =
     (if lo < hi then
        (let mid = (lo + hi) div 2 in
         if js_lt (arr_get a (int mid)) x then bisectLeftLoop a x (mid + 1) hi
         else bisectLeftLoop a x lo mid)
      else lo)"
  by pat_completeness auto
termination
  by (relation "measure (\<lambda>(a, x, lo, hi). hi - lo)") auto

function bisectRightLoop :: "jsnum list \<Rightarrow> jsnum \<Rightarrow> nat \<Rightarrow> nat \<Rightarrow> nat" where
  "bisectRightLoop a x lo hi =
     (if lo < hi then
        (let mid = (lo + hi) div 2 in
         if js_le (arr_get a (int mid)) x then bisectRightLoop a x (mid + 1) hi
         else bisectRightLoop a x lo mid)
      else lo)"
  by pat_completeness auto
termination
  by (relation "measure (\<lambda>(a, x, lo, hi). hi - lo)") auto

declare bisectLeftLoop.simps [simp del]
declare bisectRightLoop.simps [simp del]

definition bisectLeftIn :: "jsnum list \<Rightarrow> jsnum \<Rightarrow> nat \<Rightarrow> nat \<Rightarrow> nat" where
  "bisectLeftIn a x lo hi =
     (if lo < hi then (if x = NaN then hi else bisectLeftLoop a x lo hi) else lo)"

definition bisectLeft :: "jsnum list \<Rightarrow> jsnum \<Rightarrow> nat" where
  "bisectLeft a x = bisectLeftIn a x 0 (length a)"

definition bisectRightIn :: "jsnum list \<Rightarrow> jsnum \<Rightarrow> nat \<Rightarrow> nat \<Rightarrow> nat" where
  "bisectRightIn a x lo hi =
     (if lo < hi then (if x = NaN then hi else bisectRightLoop a x lo hi) else lo)"

definition bisectRight :: "jsnum list \<Rightarrow> jsnum \<Rightarrow> nat" where
  "bisectRight a x = bisectRightIn a x 0 (length a)"

text \<open>
  Modelled from the spec: \<open>bisectCenter\<close> of \<open>util/math/array\<close>, which the pointer
  handler imports and whose source is not among the source files. The specification
  describes it as a centred binary search (bisect to nearest, not merely bisect left)
  that returns the index of the entry nearest to \<open>x\<close>, ties broken toward the lower
  index, and the last index for an \<open>x\<close> beyond the last entry. The model bisects left
  over all entries but the last and then keeps the nearer of the insertion point and
  its left neighbour, the left one on a tie.
\<close>

definition bisectCenter :: "jsnum list \<Rightarrow> jsnum \<Rightarrow> nat" where
  "bisectCenter a x =
     (let i = bisectLeftIn a x 0 (length a - 1) in
      if 0 < i \<and>
         js_le (js_abs (js_sub (arr_get a (int i - 1)) x)) (js_abs (js_sub (arr_get a (int i)) x))
      then i - 1
      else i)"

section \<open>The horizontal axis\<close>

text \<open>
  \<open>HorizontalAxis\<close> keeps two \<open>Map\<close>s from strings to \<open>Text\<close> objects and is itself
  a container of such objects. Objects live in a heap and are named by their address, so
  that object identity is equality of addresses. A \<open>Map\<close> is an association list in
  insertion order: \<open>AList.update\<close> replaces the value of a present key in place and
  appends an absent one, as \<open>Map.set\<close> does, and \<open>AList.delete\<close> is \<open>Map.delete\<close>.
\<close>

type_synonym ref = nat

type_synonym colour = nat

record colors =
  backgroundSurface :: colour
  buyStroke :: colour
  sellStroke :: colour
  textPrimary :: colour
  textSecondary :: colour
  backgroundLabel :: colour
  overlay :: colour

text \<open>The \<open>Text\<close> display object, as far as the axis writes it.\<close>

record text_node =
  content :: string
  fill :: colour
  fontSize :: jsnum
  text_x :: jsnum
  text_y :: jsnum
  text_anchor :: "jsnum \<times> jsnum"

text \<open>
  A d3 linear scale is used through five of its functions, which are taken as given:
  the mapping itself, its inverse, its domain, the tick generator and the tick formatter
  (both of the latter take the advisory tick count).
\<close>

record scale =
  sc_apply :: "jsnum \<Rightarrow> jsnum"
  sc_invert :: "jsnum \<Rightarrow> jsnum"
  sc_domain :: "jsnum \<times> jsnum"
  sc_ticks :: "jsnum \<Rightarrow> jsnum list"
  sc_tickFormat :: "jsnum \<Rightarrow> jsnum \<Rightarrow> string"

text \<open>
  The constants \<open>AXIS_HEIGHT\<close> and \<open>FONT_SIZE\<close> are imported from the chart module,
  which is not among the source files; they are parameters of the model.
\<close>

record chart_consts =
  AXIS_HEIGHT :: jsnum
  FONT_SIZE :: jsnum

record axis =
  nodeByKeyValue :: "(string \<times> ref) list"
  tmByKeyValue :: "(string \<times> ref) list"
  children :: "ref list"
  heap :: "text_node list"

datatype error = TypeError

definition new_HorizontalAxis :: axis where
  "new_HorizontalAxis = \<lparr>nodeByKeyValue = [], tmByKeyValue = [], children = [], heap = []\<rparr>"

definition map_has :: "(string \<times> ref) list \<Rightarrow> string \<Rightarrow> bool" where
  "map_has m k = (map_of m k \<noteq> None)"

text \<open>\<open>new Text(...)\<close>: the new object's address is the next free one.\<close>

definition alloc :: "text_node \<Rightarrow> axis \<Rightarrow> ref \<times> axis" where
  "alloc t s = (length (heap s), s\<lparr>heap := heap s @ [t]\<rparr>)"

text \<open>
  Modelled from the spec: \<open>Container.addChild\<close> and \<open>Container.removeChild\<close> of the
  rendering backend, which is not among the source files: a node is inserted into the
  visual tree, and removed from it. Removing \<open>undefined\<close> (here \<open>None\<close>) or a node
  that is not a child changes nothing.
\<close>

definition addChild :: "ref \<Rightarrow> axis \<Rightarrow> axis" where
  "addChild r s = s\<lparr>children := children s @ [r]\<rparr>"

definition removeChild :: "ref option \<Rightarrow> axis \<Rightarrow> axis" where
  "removeChild r s = (case r of None \<Rightarrow> s | Some c \<Rightarrow> s\<lparr>children := remove1 c (children s)\<rparr>)"

text \<open>The vertical positions of a label and of its tick mark.\<close>

definition label_y :: "chart_consts \<Rightarrow> jsnum \<Rightarrow> jsnum \<Rightarrow> jsnum" where
  "label_y K height resolution =
     js_add (js_sub height (js_div (js_mul resolution (AXIS_HEIGHT K)) (Fin 2))) (Fin 5)"

definition mark_y :: "chart_consts \<Rightarrow> jsnum \<Rightarrow> jsnum \<Rightarrow> jsnum" where
  "mark_y K height resolution =
     js_sub (js_sub height (js_div (js_mul resolution (AXIS_HEIGHT K)) (Fin 2))) (Fin 5)"

text \<open>The body of the loop over entering ticks.\<close>

definition enter_tick ::
  "chart_consts \<Rightarrow> scale \<Rightarrow> (jsnum \<Rightarrow> string) \<Rightarrow> jsnum \<Rightarrow> jsnum \<Rightarrow> colors \<Rightarrow> jsnum \<Rightarrow> axis \<Rightarrow> axis"
where
  "enter_tick K sc tickFormat height resolution cols node s =
     (let (text, s1) = alloc \<lparr>content = tickFormat node, fill = textSecondary cols,
              fontSize = FONT_SIZE K, text_x = sc_apply sc node,
              text_y = label_y K height resolution, text_anchor = (Fin 0.5, Fin 0.5)\<rparr> s;
          (tickMark, s2) = alloc \<lparr>content = ''|'', fill = textSecondary cols,
              fontSize = Fin 5, text_x = sc_apply sc node,
              text_y = mark_y K height resolution, text_anchor = (Fin 0.5, Fin 0.5)\<rparr> s1;
          s3 = s2\<lparr>nodeByKeyValue := AList.update (tickFormat node) text (nodeByKeyValue s2)\<rparr>;
          s4 = s3\<lparr>tmByKeyValue := AList.update (tickFormat node @ ''|'') tickMark (tmByKeyValue s3)\<rparr>
      in addChild tickMark (addChild text s4))"

text \<open>
  The body of the loop over updated ticks. The label is in the cache (the tick was
  selected for that); the tick mark is looked up under the key with the bar appended,
  and writing to a missing one is a \<open>TypeError\<close>.
\<close>

definition update_tick ::
  "chart_consts \<Rightarrow> scale \<Rightarrow> (jsnum \<Rightarrow> string) \<Rightarrow> jsnum \<Rightarrow> jsnum \<Rightarrow> colors \<Rightarrow> jsnum \<Rightarrow> axis \<Rightarrow> error + axis"
where
  "update_tick K sc tickFormat height resolution cols node s =
     (case map_of (nodeByKeyValue s) (tickFormat node) of
        None \<Rightarrow> Inl TypeError
      | Some text \<Rightarrow>
          (let s1 = s\<lparr>heap := (heap s)[text := (heap s ! text)
                      \<lparr>fill := textSecondary cols, text_x := sc_apply sc node,
                       text_y := label_y K height resolution\<rparr>]\<rparr>
           in case map_of (tmByKeyValue s1) (tickFormat node @ ''|'') of
                None \<Rightarrow> Inl TypeError
              | Some tm \<Rightarrow>
                  Inr (s1\<lparr>heap := (heap s1)[tm := (heap s1 ! tm)
                         \<lparr>text_x := sc_apply sc node, text_y := mark_y K height resolution\<rparr>]\<rparr>)))"

fun update_ticks ::
  "chart_consts \<Rightarrow> scale \<Rightarrow> (jsnum \<Rightarrow> string) \<Rightarrow> jsnum \<Rightarrow> jsnum \<Rightarrow> colors \<Rightarrow> jsnum list \<Rightarrow> axis \<Rightarrow> error + axis"
where
  "update_ticks K sc tickFormat height resolution cols [] s = Inr s"
| "update_ticks K sc tickFormat height resolution cols (node # nodes) s =
     (case update_tick K sc tickFormat height resolution cols node s of
        Inl e \<Rightarrow> Inl e
      | Inr s' \<Rightarrow> update_ticks K sc tickFormat height resolution cols nodes s')"

text \<open>
  The body of the loop over exiting keys. The label is deleted from the label cache
  under its key. The tick mark is looked up under the key with the bar appended, but
  the deletion from the tick-mark cache is called with the key itself.
\<close>

definition exit_key :: "string \<Rightarrow> axis \<Rightarrow> axis" where
  "exit_key node s =
     (let text = map_of (nodeByKeyValue s) node;
          tm = map_of (tmByKeyValue s) (node @ ''|'');
          s1 = s\<lparr>nodeByKeyValue := AList.delete node (nodeByKeyValue s)\<rparr>;
          s2 = removeChild text s1;
          s3 = s2\<lparr>tmByKeyValue := AList.delete node (tmByKeyValue s2)\<rparr>
      in removeChild tm s3)"

text \<open>\<open>HorizontalAxis.update\<close>. The three selections are made before the first loop runs.\<close>

definition HorizontalAxis_update ::
  "chart_consts \<Rightarrow> scale \<Rightarrow> jsnum \<Rightarrow> jsnum \<Rightarrow> jsnum \<Rightarrow> colors \<Rightarrow> axis \<Rightarrow> error + axis"
where
  "HorizontalAxis_update K sc width height resolution cols s =
     (let numTicks = js_div (js_div width resolution) (Fin 200);
          ticks = sc_ticks sc numTicks;
          tickFormat = sc_tickFormat sc numTicks;
          enter = filter (\<lambda>tick. \<not> map_has (nodeByKeyValue s) (tickFormat tick)) ticks;
          update = filter (\<lambda>tick. map_has (nodeByKeyValue s) (tickFormat tick)) ticks;
          exit = filter (\<lambda>node. node \<notin> set (map tickFormat ticks)) (map fst (nodeByKeyValue s));
          s1 = fold (enter_tick K sc tickFormat height resolution cols) enter s
      in case update_ticks K sc tickFormat height resolution cols update s1 of
           Inl e \<Rightarrow> Inl e
         | Inr s2 \<Rightarrow> Inr (fold exit_key exit s2))"

text \<open>A sequence of \<open>update\<close> calls on one axis; an exception ends it.\<close>

fun axis_updates ::
  "chart_consts \<Rightarrow> (scale \<times> jsnum \<times> jsnum \<times> jsnum \<times> colors) list \<Rightarrow> axis \<Rightarrow> error + axis"
where
  "axis_updates K [] s = Inr s"
| "axis_updates K ((sc, width, height, resolution, cols) # calls) s =
     (case HorizontalAxis_update K sc width height resolution cols s of
        Inl e \<Rightarrow> Inl e
      | Inr s' \<Rightarrow> axis_updates K calls s')"

section \<open>The interaction engine: state\<close>

text \<open>The events the engine emits, in the order of emission.\<close>

datatype emitted = ZoomStart | Zoom jsnum | ZoomEnd

text \<open>
  A touch record of the gesture. Touch coordinates come from the DOM (\<open>clientX\<close>,
  the bounding rectangle of the target, its border widths), which delivers finite
  numbers, so they are reals.
\<close>

type_synonym point = "real \<times> real"

record touch_rec =
  point :: point
  originalPoint :: point
  t_identifier :: int  \<comment> \<open>the field \<open>identifier\<close>\<close>

record gesture =
  taps :: nat
  touch0 :: "touch_rec option"
  touch1 :: "touch_rec option"
  wheel :: "nat option"

text \<open>A DOM \<open>Touch\<close> with the geometry of its target that \<open>pointer\<close> reads.\<close>

record dom_touch =
  dt_identifier :: int
  clientX :: real
  clientY :: real
  rect_left :: real
  rect_top :: real
  clientLeft :: real
  clientTop :: real

definition pointer :: "dom_touch \<Rightarrow> point" where
  "pointer event =
     (clientX event - rect_left event - clientLeft event,
      clientY event - rect_top event - clientTop event)"

text \<open>
  The original event of an interaction event: a \<open>TouchEvent\<close> with its \<open>touches\<close>
  and \<open>changedTouches\<close>, or anything else.
\<close>

datatype original_event = TouchEvent "dom_touch list" "dom_touch list" | OtherEvent

text \<open>
  Modelled from the spec: the overlay display objects \<open>Label\<close>, \<open>Indicator\<close> and
  \<open>Rect\<close> of the display-object modules, which are not among the source files. The
  rendering contract gives them a position, an anchor, a visibility flag and (for text)
  a measured size. An object keeps the arguments of its last \<open>update\<close> call (the
  resolution, the colours and the side tag are passed through unchanged and not kept)
  and its \<open>visible\<close> flag; a label's size after an \<open>update\<close> is what the backend
  measures for the new text, a parameter of the model.
\<close>

record label =
  l_text :: "string option"
  l_x :: jsnum
  l_y :: jsnum
  l_anchor :: "jsnum \<times> jsnum"
  l_width :: jsnum
  l_height :: jsnum
  l_visible :: bool

record indicator =
  i_x :: jsnum
  i_y :: jsnum
  i_width :: jsnum
  i_height :: jsnum
  i_visible :: bool

record rect =
  r_x :: jsnum
  r_y :: jsnum
  r_width :: jsnum
  r_height :: jsnum
  r_color :: colour
  r_visible :: bool

record overlays =
  buyIndicator :: indicator
  sellIndicator :: indicator
  auctionIndicator :: indicator
  buyPriceText :: label
  buyVolumeText :: label
  buyVolRatioText :: label
  sellPriceText :: label
  sellVolumeText :: label
  sellVolRatioText :: label
  auctionPriceText :: label
  auctionVolumeText :: label
  buyOverlay :: rect
  sellOverlay :: rect

text \<open>
  What the engine reads of its renderer, and the number of \<open>render\<close> calls made so far.
\<close>

record renderer =
  resolution :: jsnum
  view_width :: jsnum
  view_height :: jsnum
  renders :: nat

text \<open>
  A pointer event: \<open>data.global\<close> if the event has data.
\<close>

record interaction_event =
  ev_global :: "(jsnum \<times> jsnum) option"

text \<open>
  The environment of the engine: whether the global object has \<open>ontouchstart\<close>, the
  number formatters of the platform, \<open>getFloatNumber\<close> of the array utilities (not
  among the source files), the text measurement of the backend, the rendering of finite
  numbers of magnitude \<open>10^21\<close> and more by \<open>Number.prototype.toString\<close> (which
  depends on their binary representation), and the chart constants.
\<close>

record env =
  touchDevice :: bool
  compactFormat :: "jsnum \<Rightarrow> string"
  localeFormat :: "jsnum \<Rightarrow> jsnum \<Rightarrow> string"
  getFloatNumber :: "jsnum \<Rightarrow> jsnum"
  measureText :: "string option \<Rightarrow> jsnum \<times> jsnum"
  numberToString :: "real \<Rightarrow> string"
  chart :: chart_consts

text \<open>
  The state of a \<open>UI\<close> instance. Beside the fields of the class it holds the events
  emitted so far, the pending timers of the window (handle and due time; the wheel
  debounce is the only timer this code sets) with the number of handles given out, and
  \<open>delaunayBuilds\<close>, which counts the calls of \<open>Delaunay.from\<close>. The vertical axis,
  the mid-market label, the mid-price line, the separator and the hit area are written
  by \<open>update\<close> and the constructor only and read by nothing here; they are left out.
\<close>

record ui =
  scaleExtent :: "jsnum \<times> jsnum"
  ui_colors :: colors
  prices :: "jsnum list"
  volumes :: "jsnum list"
  priceLabels :: "string list"
  volumeLabels :: "string list"
  priceScale :: scale
  volumeScale :: scale
  midPrice :: jsnum
  indicativePrice :: jsnum
  transform :: jsnum
  originalTransform :: jsnum
  horizontalAxis :: axis
  ov :: overlays
  rend :: renderer
  lastEvent :: "interaction_event option"
  gest :: gesture
  emitted :: "emitted list"
  timers :: "(nat \<times> real) list"
  timer_count :: nat
  delaunayBuilds :: nat

definition emit :: "emitted \<Rightarrow> ui \<Rightarrow> ui" where
  "emit e s = s\<lparr>emitted := emitted s @ [e]\<rparr>"

definition render :: "ui \<Rightarrow> ui" where
  "render s = s\<lparr>rend := (rend s)\<lparr>renders := renders (rend s) + 1\<rparr>\<rparr>"

section \<open>The gesture state machine\<close>

text \<open>
  \<open>clamp\<close> of lodash, with both bounds given: a \<open>NaN\<close> bound counts as \<open>0\<close>, a
  \<open>NaN\<close> number stays \<open>NaN\<close>, any other number is cut to the upper bound first and
  to the lower bound second.
\<close>

definition clamp :: "jsnum \<Rightarrow> jsnum \<Rightarrow> jsnum \<Rightarrow> jsnum" where
  "clamp number lower upper =
     (let upper' = (if upper = NaN then Fin 0 else upper);
          lower' = (if lower = NaN then Fin 0 else lower)
      in if number = NaN then NaN
         else (let n1 = (if js_le number upper' then number else upper')
               in if js_ge n1 lower' then n1 else lower'))"

text \<open>
  Timers. \<open>window.setTimeout\<close> returns a fresh positive handle (handles are numbered
  from \<open>1\<close>) and records the due time; \<open>window.clearTimeout\<close> drops the handle.
  \<open>run_timers\<close> runs the callbacks that are due at time \<open>now\<close>, in the order they
  were set; a timer never runs before it is due. The callback of the wheel timer resets
  \<open>gesture.wheel\<close> and emits \<open>zoomend\<close>.
\<close>

definition setTimeout :: "real \<Rightarrow> real \<Rightarrow> ui \<Rightarrow> nat \<times> ui" where
  "setTimeout now delay s =
     (timer_count s + 1,
      s\<lparr>timers := timers s @ [(timer_count s + 1, now + delay)], timer_count := timer_count s + 1\<rparr>)"

definition clearTimeout :: "nat \<Rightarrow> ui \<Rightarrow> ui" where
  "clearTimeout h s = s\<lparr>timers := filter (\<lambda>(h', due). h' \<noteq> h) (timers s)\<rparr>"

definition wheel_timeout :: "ui \<Rightarrow> ui" where
  "wheel_timeout s = emit ZoomEnd (s\<lparr>gest := (gest s)\<lparr>wheel := None\<rparr>\<rparr>)"

definition run_timers :: "real \<Rightarrow> ui \<Rightarrow> ui" where
  "run_timers now s =
     (let due = filter (\<lambda>(h, d). d \<le> now) (timers s);
          s1 = s\<lparr>timers := filter (\<lambda>(h, d). \<not> d \<le> now) (timers s)\<rparr>
      in fold (\<lambda>_. wheel_timeout) due s1)"

text \<open>
  The wheel handler, run at time \<open>now\<close> with the event's \<open>deltaY\<close> and \<open>ctrlKey\<close>.
  A handle is truthy unless it is \<open>0\<close>.
\<close>

definition on_wheel :: "real \<Rightarrow> jsnum \<Rightarrow> bool \<Rightarrow> ui \<Rightarrow> ui" where
  "on_wheel now deltaY ctrlKey s =
     (let s1 = (case wheel (gest s) of
                  Some h \<Rightarrow> (if h \<noteq> 0 then clearTimeout h s else emit ZoomStart s)
                | None \<Rightarrow> emit ZoomStart s);
          k = js_pow2 (js_mul (js_mul (js_neg deltaY) (Fin 0.002)) (Fin (if ctrlKey then 10 else 1)));
          s2 = s1\<lparr>transform := clamp (js_mul (transform s1) k) (fst (scaleExtent s1)) (snd (scaleExtent s1))\<rparr>;
          (h, s3) = setTimeout now 150 s2;
          s4 = s3\<lparr>gest := (gest s3)\<lparr>wheel := Some h\<rparr>\<rparr>
      in emit (Zoom (transform s4)) s4)"

text \<open>
  A run of wheel events, each with its time: the timers due are run before each event.
\<close>

fun wheel_run :: "(real \<times> jsnum \<times> bool) list \<Rightarrow> ui \<Rightarrow> ui" where
  "wheel_run [] s = s"
| "wheel_run ((t, deltaY, ctrlKey) # evs) s = wheel_run evs (on_wheel t deltaY ctrlKey (run_timers t s))"

text \<open>The loop of the \<open>touchstart\<close> handler over the touches; it returns \<open>started\<close> too.\<close>

fun touchstart_loop :: "dom_touch list \<Rightarrow> bool \<times> gesture \<Rightarrow> bool \<times> gesture" where
  "touchstart_loop [] (started, g) = (started, g)"
| "touchstart_loop (touch # touches) (started, g) =
     (let p = pointer touch in
      case touch0 g of
        None \<Rightarrow> touchstart_loop touches
                  (True, g\<lparr>touch0 := Some \<lparr>point = p, originalPoint = p, t_identifier = dt_identifier touch\<rparr>\<rparr>)
      | Some t0 \<Rightarrow>
          (if touch1 g = None \<and> t_identifier t0 \<noteq> dt_identifier touch
           then touchstart_loop touches
                  (started, g\<lparr>touch1 := Some \<lparr>point = p, originalPoint = p, t_identifier = dt_identifier touch\<rparr>,
                              taps := 0\<rparr>)
           else touchstart_loop touches (started, g)))"

definition on_touchstart :: "original_event \<Rightarrow> ui \<Rightarrow> ui" where
  "on_touchstart ev s =
     (case ev of
        OtherEvent \<Rightarrow> s
      | TouchEvent touches changed \<Rightarrow>
          (let (started, g) = touchstart_loop touches (False, gest s);
               s1 = s\<lparr>gest := g\<rparr>
           in if started then emit ZoomStart (s1\<lparr>originalTransform := transform s1\<rparr>) else s1))"

text \<open>The loop of the \<open>touchmove\<close> handler over the changed touches.\<close>

fun touchmove_loop :: "dom_touch list \<Rightarrow> gesture \<Rightarrow> gesture" where
  "touchmove_loop [] g = g"
| "touchmove_loop (touch # touches) g =
     (case touch0 g of
        Some t0 \<Rightarrow>
          (if t_identifier t0 = dt_identifier touch
           then touchmove_loop touches (g\<lparr>touch0 := Some (t0\<lparr>point := pointer touch\<rparr>)\<rparr>)
           else (case touch1 g of
                   Some t1 \<Rightarrow>
                     (if t_identifier t1 = dt_identifier touch
                      then touchmove_loop touches (g\<lparr>touch1 := Some (t1\<lparr>point := pointer touch\<rparr>)\<rparr>)
                      else touchmove_loop touches g)
                 | None \<Rightarrow> touchmove_loop touches g))
      | None \<Rightarrow>
          (case touch1 g of
             Some t1 \<Rightarrow>
               (if t_identifier t1 = dt_identifier touch
                then touchmove_loop touches (g\<lparr>touch1 := Some (t1\<lparr>point := pointer touch\<rparr>)\<rparr>)
                else touchmove_loop touches g)
           | None \<Rightarrow> touchmove_loop touches g))"

text \<open>The squared distance of two points, as the handler computes it.\<close>

definition dist2 :: "point \<Rightarrow> point \<Rightarrow> real" where
  "dist2 a b = (fst b - fst a)\<^sup>2 + (snd b - snd a)\<^sup>2"

text \<open>
  The \<open>touchmove\<close> handler. With a second touch recorded it reads the first one's
  points; if there is no first touch, that read is a \<open>TypeError\<close>.
\<close>

definition on_touchmove :: "original_event \<Rightarrow> ui \<Rightarrow> error + ui" where
  "on_touchmove ev s =
     (case ev of
        OtherEvent \<Rightarrow> Inr s
      | TouchEvent touches changed \<Rightarrow>
          (let g = touchmove_loop changed (gest s);
               s1 = s\<lparr>gest := g\<rparr>
           in case touch1 g of
                None \<Rightarrow> Inr s1
              | Some t1 \<Rightarrow>
                  (case touch0 g of
                     None \<Rightarrow> Inl TypeError
                   | Some t0 \<Rightarrow>
                       (let dp = dist2 (point t0) (point t1);
                            dl = dist2 (originalPoint t0) (originalPoint t1);
                            k = js_sqrt (js_div (Fin dp) (Fin dl));
                            s2 = s1\<lparr>transform := clamp (js_mul (originalTransform s1) k)
                                       (fst (scaleExtent s1)) (snd (scaleExtent s1))\<rparr>
                        in Inr (emit (Zoom (clamp (transform s2) (fst (scaleExtent s2)) (snd (scaleExtent s2)))) s2)))))"

text \<open>The loop of the \<open>touchend\<close> handler over the changed touches.\<close>

fun touchend_loop :: "dom_touch list \<Rightarrow> gesture \<Rightarrow> gesture" where
  "touchend_loop [] g = g"
| "touchend_loop (touch # touches) g =
     (case touch0 g of
        Some t0 \<Rightarrow>
          (if t_identifier t0 = dt_identifier touch
           then touchend_loop touches (g\<lparr>touch0 := None\<rparr>)
           else (case touch1 g of
                   Some t1 \<Rightarrow>
                     (if t_identifier t1 = dt_identifier touch
                      then touchend_loop touches (g\<lparr>touch1 := None\<rparr>)
                      else touchend_loop touches g)
                 | None \<Rightarrow> touchend_loop touches g))
      | None \<Rightarrow>
          (case touch1 g of
             Some t1 \<Rightarrow>
               (if t_identifier t1 = dt_identifier touch
                then touchend_loop touches (g\<lparr>touch1 := None\<rparr>)
                else touchend_loop touches g)
           | None \<Rightarrow> touchend_loop touches g))"

definition on_touchend :: "original_event \<Rightarrow> ui \<Rightarrow> ui" where
  "on_touchend ev s =
     (case ev of
        OtherEvent \<Rightarrow> s
      | TouchEvent touches changed \<Rightarrow>
          (let g = touchend_loop changed (gest s);
               g' = (if touch1 g \<noteq> None \<and> touch0 g = None
                     then g\<lparr>touch0 := None, touch1 := None\<rparr> else g)
           in emit ZoomEnd (s\<lparr>gest := g'\<rparr>)))"


section \<open>Parsing and printing numbers\<close>

text \<open>
  A JavaScript string is the list of its code units. The characters of the model are
  the code units below 256 (Basic Latin and Latin-1), so the length of a string is its
  JavaScript \<open>length\<close>; strings with other code units are outside the model.

  \<open>parseFloat\<close>: leading white space is skipped, then the longest prefix that is a
  decimal literal is read (an optional sign, then \<open>Infinity\<close> or digits with an
  optional fraction and an optional exponent); if there is none the result is \<open>NaN\<close>.
  White space is what \<open>StrWhiteSpaceChar\<close> has below 256: tab, line feed, vertical
  tab, form feed, carriage return, space and the no-break space U+00A0.
\<close>

definition is_ws :: "char \<Rightarrow> bool" where
  "is_ws c = (c \<in> set [CHR '' '', CHR 0x09, CHR 0x0A, CHR 0x0B, CHR 0x0C, CHR 0x0D, CHR 0xA0])"

definition is_digit :: "char \<Rightarrow> bool" where
  "is_digit c = (c \<in> set ''0123456789'')"

definition digit_val :: "char \<Rightarrow> nat" where
  "digit_val c = of_char c - 48"

definition digits_val :: "string \<Rightarrow> nat" where
  "digits_val ds = foldl (\<lambda>n c. 10 * n + digit_val c) 0 ds"

text \<open>The exponent part: \<open>e\<close> or \<open>E\<close>, an optional sign and at least one digit.\<close>

definition exponent_val :: "string \<Rightarrow> int" where
  "exponent_val r =
     (case r of
        [] \<Rightarrow> 0
      | c # r1 \<Rightarrow>
          (if c = CHR ''e'' \<or> c = CHR ''E'' then
             (case r1 of
                [] \<Rightarrow> 0
              | d # r2 \<Rightarrow>
                  (if d = CHR ''-'' then - int (digits_val (takeWhile is_digit r2))
                   else if d = CHR ''+'' then int (digits_val (takeWhile is_digit r2))
                   else int (digits_val (takeWhile is_digit r1))))
           else 0))"

definition parseFloat :: "string \<Rightarrow> jsnum" where
  "parseFloat str =
     (let t = dropWhile is_ws str;
          neg = (case t of [] \<Rightarrow> False | c # _ \<Rightarrow> c = CHR ''-'');
          u = (case t of [] \<Rightarrow> [] | c # r \<Rightarrow> if c = CHR ''-'' \<or> c = CHR ''+'' then r else t)
      in if take 8 u = ''Infinity'' then (if neg then NegInf else PosInf)
         else
           (let ip = takeWhile is_digit u;
                r1 = dropWhile is_digit u;
                dot = (case r1 of [] \<Rightarrow> False | c # _ \<Rightarrow> c = CHR ''.'');
                fp = (if dot then takeWhile is_digit (tl r1) else []);
                r2 = (if dot then dropWhile is_digit (tl r1) else r1)
            in if ip = [] \<and> fp = [] then NaN
               else
                 (let m = real (digits_val ip) + real (digits_val fp) / 10 ^ length fp
                  in Fin ((if neg then - 1 else 1) * m * 10 powi exponent_val r2))))"

text \<open>
  \<open>fRound\<close>: the first comma of the string is removed and the rest parsed. An absent
  string (\<open>undefined\<close>) skips the \<open>replace\<close> and parses to \<open>NaN\<close>.
\<close>

definition fRound :: "string option \<Rightarrow> jsnum" where
  "fRound str = (case str of None \<Rightarrow> NaN | Some s \<Rightarrow> parseFloat (remove1 (CHR '','') s))"

text \<open>The decimal digits of a natural number.\<close>

fun dec :: "nat \<Rightarrow> string" where
  "dec n = (if n < 10 then [char_of (48 + n)] else dec (n div 10) @ [char_of (48 + n mod 10)])"

declare dec.simps [simp del]

text \<open>
  \<open>Number.prototype.toFixed(2)\<close>: \<open>NaN\<close> and the infinities print by name; a finite
  number below \<open>10^21\<close> in magnitude prints the integer nearest to a hundred times the
  magnitude (the larger one of two), with at least one digit before the point.
\<close>

definition toFixed2 :: "env \<Rightarrow> jsnum \<Rightarrow> string" where
  "toFixed2 E x =
     (case x of
        NaN \<Rightarrow> ''NaN''
      | PosInf \<Rightarrow> ''Infinity''
      | NegInf \<Rightarrow> ''-Infinity''
      | Fin r \<Rightarrow>
          (if 10 ^ 21 \<le> \<bar>r\<bar> then numberToString E r
           else
             (let n = nat \<lfloor>\<bar>r\<bar> * 100 + 1 / 2\<rfloor>;
                  m = dec n;
                  m' = replicate (3 - length m) (CHR ''0'') @ m
              in (if r < 0 then ''-'' else []) @
                 take (length m' - 2) m' @ ''.'' @ drop (length m' - 2) m')))"

text \<open>The percentage offset of a price label from the mid price, as printed.\<close>

definition ratio_text :: "env \<Rightarrow> string option \<Rightarrow> jsnum \<Rightarrow> string" where
  "ratio_text E lbl mid =
     toFixed2 E (js_mul (js_div (js_sub (fRound lbl) mid) mid) (Fin 100)) @ ''%''"

section \<open>The interaction engine: pointer handling\<close>

text \<open>
  \<open>Delaunay.find\<close> of d3-delaunay: the index of the input point closest to \<open>(x, y)\<close>,
  \<open>-1\<close> for a \<open>NaN\<close> coordinate or no points. Among equally close points the model
  takes the first.
\<close>

definition sqdist :: "jsnum \<Rightarrow> jsnum \<Rightarrow> jsnum \<times> jsnum \<Rightarrow> jsnum" where
  "sqdist x y p =
     js_add (js_mul (js_sub x (fst p)) (js_sub x (fst p))) (js_mul (js_sub y (snd p)) (js_sub y (snd p)))"

fun find_loop :: "(jsnum \<times> jsnum) list \<Rightarrow> jsnum \<Rightarrow> jsnum \<Rightarrow> nat \<Rightarrow> nat \<Rightarrow> jsnum \<Rightarrow> nat" where
  "find_loop [] x y i best bd = best"
| "find_loop (p # ps) x y i best bd =
     (if js_lt (sqdist x y p) bd then find_loop ps x y (i + 1) i (sqdist x y p)
      else find_loop ps x y (i + 1) best bd)"

definition Delaunay_find :: "(jsnum \<times> jsnum) list \<Rightarrow> jsnum \<Rightarrow> jsnum \<Rightarrow> int" where
  "Delaunay_find points x y =
     (if x = NaN \<or> y = NaN then - 1
      else case points of [] \<Rightarrow> - 1 | p # ps \<Rightarrow> int (find_loop ps x y 1 0 (sqdist x y p)))"

text \<open>The formatted ticks of the volume scale and the chart width derived from them.\<close>

definition formatTick :: "env \<Rightarrow> jsnum \<Rightarrow> string" where
  "formatTick E num =
     (if js_ge num (Fin 1000) then compactFormat E num
      else localeFormat E num (getFloatNumber E num))"

definition chart_width :: "env \<Rightarrow> ui \<Rightarrow> jsnum" where
  "chart_width E s =
     (let resolution = resolution (rend s);
          numTicks = js_div (js_div (view_height (rend s)) resolution) (Fin 50);
          ticks = sc_ticks (volumeScale s) numTicks;
          formatTicks = map (formatTick E) ticks;
          descFmtStrs = sort_key (\<lambda>a. - int (length a)) formatTicks;
          size = (case descFmtStrs of [] \<Rightarrow> NaN | a # _ \<Rightarrow> js_add (Fin (real (length a))) (Fin 0.8))
      in js_sub (view_width (rend s)) (js_mul (js_mul resolution (Fin 8)) size))"

text \<open>
  The indices and pixel positions of the two sides in the normal mode, from the prices,
  the pointer's device-pixel \<open>x\<close>, the chart width and \<open>priceScale(midPrice)\<close>:
  \<open>(buyIndex, sellIndex, buyNearestX, sellNearestX)\<close>.
\<close>

definition pointer_sides :: "jsnum list \<Rightarrow> jsnum \<Rightarrow> jsnum \<Rightarrow> jsnum \<Rightarrow> int \<times> int \<times> jsnum \<times> jsnum" where
  "pointer_sides ps x width mid =
     (let index = int (bisectCenter ps x);
          nearestX = arr_get ps index;
          reflected = js_sub (js_mul (Fin 2) mid) nearestX
      in if js_gt x (js_div width (Fin 2))
         then ((if js_ge (arr_get ps 0) (js_div width (Fin 2)) then - 1
                else int (bisectLeft ps reflected) - 1),
               index, reflected, nearestX)
         else (index,
               (if js_le (arr_get ps (int (length ps) - 1)) (js_div width (Fin 2)) then - 1
                else int (bisectRight ps reflected) - 1),
               nearestX, reflected))"

definition Label_update :: "env \<Rightarrow> string option \<Rightarrow> jsnum \<Rightarrow> jsnum \<Rightarrow> jsnum \<times> jsnum \<Rightarrow> label \<Rightarrow> label" where
  "Label_update E text x y anchor l =
     l\<lparr>l_text := text, l_x := x, l_y := y, l_anchor := anchor,
       l_width := fst (measureText E text), l_height := snd (measureText E text)\<rparr>"

definition Indicator_update :: "jsnum \<Rightarrow> jsnum \<Rightarrow> jsnum \<Rightarrow> jsnum \<Rightarrow> indicator \<Rightarrow> indicator" where
  "Indicator_update x y width height i = i\<lparr>i_x := x, i_y := y, i_width := width, i_height := height\<rparr>"

definition Rect_update :: "jsnum \<Rightarrow> jsnum \<Rightarrow> jsnum \<Rightarrow> jsnum \<Rightarrow> colour \<Rightarrow> rect \<Rightarrow> rect" where
  "Rect_update x y width height color r =
     r\<lparr>r_x := x, r_y := y, r_width := width, r_height := height, r_color := color\<rparr>"

text \<open>
  The vertical position of a ratio or volume label of the normal mode: the curve's
  \<open>y\<close> at the index, kept inside the plot by half the label's height and a margin.
\<close>

definition label_band :: "env \<Rightarrow> ui \<Rightarrow> jsnum \<Rightarrow> jsnum \<Rightarrow> jsnum" where
  "label_band E s vol h =
     (let resolution = resolution (rend s); height = view_height (rend s)
      in js_min (js_max vol (js_add (js_div (js_mul resolution h) (Fin 2)) (Fin 2)))
           (js_sub (js_sub (js_sub height (js_mul resolution (AXIS_HEIGHT (chart E))))
                      (js_div (js_mul resolution h) (Fin 2))) (Fin 2)))"

text \<open>
  The auction branch of the pointer handler. Every argument is evaluated on the state
  before the first object is written; each object is written once.
\<close>

definition pointer_auction :: "env \<Rightarrow> jsnum \<Rightarrow> jsnum \<Rightarrow> jsnum \<Rightarrow> ui \<Rightarrow> ui" where
  "pointer_auction E x gy width s =
     (let resolution = resolution (rend s);
          height = view_height (rend s);
          ovl = ov s;
          y = js_mul gy resolution;
          radius = js_mul (Fin 50) resolution;
          points = zip (prices s) (volumes s);
          s1 = s\<lparr>delaunayBuilds := delaunayBuilds s + 1\<rparr>;
          index = Delaunay_find points x y;
          px = arr_get (prices s) index;
          vy = arr_get (volumes s) index;
          half = js_div width (Fin 2);
          d = js_hypot (js_sub x px) (js_sub y vy)
      in if js_lt d radius then
           s1\<lparr>ov := ovl\<lparr>
             auctionPriceText :=
               (Label_update E (str_get (priceLabels s) index)
                  (js_max
                     (js_min px
                        (js_sub (js_sub width (js_div (js_mul resolution (l_width (auctionPriceText ovl))) (Fin 2))) (Fin 2)))
                     (js_add (js_add half (js_div (js_mul resolution (l_width (sellPriceText ovl))) (Fin 2)))
                        (js_mul resolution (Fin 2))))
                  (js_sub height (js_div (js_mul resolution (AXIS_HEIGHT (chart E))) (Fin 2)))
                  (Fin 0.5, Fin 0.5) (auctionPriceText ovl))\<lparr>l_visible := True\<rparr>,
             auctionVolumeText :=
               (Label_update E (str_get (volumeLabels s) index)
                  (if js_gt px half
                   then (if js_gt (js_sub px half)
                              (js_add (js_mul resolution (l_width (auctionVolumeText ovl))) (js_mul resolution (Fin 6)))
                         then js_add half (js_mul resolution (Fin 3))
                         else js_add px (Fin 6))
                   else (if js_gt (js_sub half px)
                              (js_add (js_mul resolution (l_width (auctionVolumeText ovl))) (Fin 6))
                         then js_sub half (js_mul resolution (Fin 2))
                         else js_sub px (Fin 6)))
                  (js_min
                     (js_max vy (js_add (js_div (l_height (auctionVolumeText ovl)) (Fin 2)) (Fin 2)))
                     (js_sub (js_sub (js_sub height (js_mul resolution (AXIS_HEIGHT (chart E))))
                                (js_div (l_height (auctionVolumeText ovl)) (Fin 2))) (Fin 2)))
                  (if js_gt px half then Fin 0 else Fin 1, Fin 0.5) (auctionVolumeText ovl))\<lparr>l_visible := True\<rparr>,
             auctionIndicator :=
               (Indicator_update px vy width height (auctionIndicator ovl))\<lparr>i_visible := True\<rparr>\<rparr>\<rparr>
         else
           s1\<lparr>ov := ovl\<lparr>
             auctionPriceText := (auctionPriceText ovl)\<lparr>l_visible := False\<rparr>,
             auctionVolumeText := (auctionVolumeText ovl)\<lparr>l_visible := False\<rparr>,
             auctionIndicator := (auctionIndicator ovl)\<lparr>i_visible := False\<rparr>\<rparr>\<rparr>)"

text \<open>The normal branch of the pointer handler, with the same remark.\<close>

definition pointer_normal :: "env \<Rightarrow> jsnum \<Rightarrow> jsnum \<Rightarrow> ui \<Rightarrow> ui" where
  "pointer_normal E x width s =
     (let resolution = resolution (rend s);
          height = view_height (rend s);
          ovl = ov s;
          half = js_div width (Fin 2);
          axisH = js_mul resolution (AXIS_HEIGHT (chart E));
          (buyIndex, sellIndex, buyNearestX, sellNearestX) =
             pointer_sides (prices s) x width (sc_apply (priceScale s) (midPrice s));
          priceY = js_add (js_sub height (js_div axisH (Fin 2))) (js_mul (Fin 3) resolution);
          sellPricesPresent = js_gt (arr_get (prices s) (int (length (prices s)) - 1)) half;
          buyPricesPresent = js_lt (arr_get (prices s) 0) half;
          buyVisible = (js_gt (sc_invert (priceScale s) buyNearestX) (fst (sc_domain (priceScale s)))
                        \<and> buyPricesPresent \<and> buyIndex \<noteq> - 1);
          sellVisible = (js_lt (sc_invert (priceScale s) sellNearestX) (snd (sc_domain (priceScale s)))
                         \<and> sellPricesPresent \<and> sellIndex \<noteq> - 1)
      in s\<lparr>ov := ovl\<lparr>
           buyVolRatioText :=
             (Label_update E (Some (ratio_text E (str_get (priceLabels s) buyIndex) (midPrice s)))
                (js_add (js_add buyNearestX (js_div (js_sub half buyNearestX) (Fin 2)))
                   (js_div (js_mul resolution (l_width (buyVolRatioText ovl))) (Fin 2)))
                (label_band E s (arr_get (volumes s) buyIndex) (l_height (buyVolRatioText ovl)))
                (Fin 1, Fin 0.5) (buyVolRatioText ovl))\<lparr>l_visible := buyVisible\<rparr>,
           buyPriceText :=
             (Label_update E (str_get (priceLabels s) buyIndex)
                (js_min
                   (js_max buyNearestX (js_add (js_div (js_mul resolution (l_width (buyPriceText ovl))) (Fin 2)) (Fin 2)))
                   (js_sub (js_sub half (js_div (js_mul resolution (l_width (buyPriceText ovl))) (Fin 2)))
                      (js_mul resolution (Fin 2))))
                priceY (Fin 0.5, Fin 0.5) (buyPriceText ovl))\<lparr>l_visible := buyVisible\<rparr>,
           buyVolumeText :=
             (Label_update E (str_get (volumeLabels s) buyIndex) (Fin 0)
                (label_band E s (arr_get (volumes s) buyIndex) (l_height (buyVolumeText ovl)))
                (Fin 0, Fin 0.5) (buyVolumeText ovl))\<lparr>l_visible := buyVisible\<rparr>,
           sellVolRatioText :=
             (Label_update E (Some (''+'' @ ratio_text E (str_get (priceLabels s) sellIndex) (midPrice s)))
                (js_sub (js_add half (js_div (js_sub sellNearestX half) (Fin 2)))
                   (js_div (js_mul resolution (l_width (sellVolRatioText ovl))) (Fin 2)))
                (label_band E s (arr_get (volumes s) sellIndex) (l_height (sellVolRatioText ovl)))
                (Fin 0, Fin 0.5) (sellVolRatioText ovl))\<lparr>l_visible := sellVisible\<rparr>,
           sellPriceText :=
             (Label_update E (str_get (priceLabels s) sellIndex)
                (js_max
                   (js_min sellNearestX
                      (js_sub (js_sub width (js_div (js_mul resolution (l_width (sellPriceText ovl))) (Fin 2))) (Fin 2)))
                   (js_add (js_add half (js_div (js_mul resolution (l_width (sellPriceText ovl))) (Fin 2)))
                      (js_mul resolution (Fin 2))))
                priceY (Fin 0.5, Fin 0.5) (sellPriceText ovl))\<lparr>l_visible := sellVisible\<rparr>,
           sellVolumeText :=
             (Label_update E (str_get (volumeLabels s) sellIndex) width
                (label_band E s (arr_get (volumes s) sellIndex) (l_height (sellVolumeText ovl)))
                (Fin 1, Fin 0.5) (sellVolumeText ovl))\<lparr>l_visible := sellVisible\<rparr>,
           buyIndicator :=
             (Indicator_update buyNearestX (arr_get (volumes s) buyIndex) width height (buyIndicator ovl))
               \<lparr>i_visible := buyVisible\<rparr>,
           sellIndicator :=
             (Indicator_update sellNearestX (arr_get (volumes s) sellIndex) width height (sellIndicator ovl))
               \<lparr>i_visible := sellVisible\<rparr>,
           buyOverlay :=
             (Rect_update (Fin 0) (Fin 0) buyNearestX (js_sub height axisH) (overlay (ui_colors s)) (buyOverlay ovl))
               \<lparr>r_visible := buyVisible\<rparr>,
           sellOverlay :=
             (Rect_update sellNearestX (Fin 0) (js_sub width sellNearestX) (js_sub height axisH)
                (overlay (ui_colors s)) (sellOverlay ovl))
               \<lparr>r_visible := sellVisible\<rparr>\<rparr>\<rparr>)"

text \<open>
  \<open>onPointerMove\<close>. On a touch device the handler returns at once. Otherwise the event
  is cached, and if its \<open>x\<close> is truthy and there are at least two prices, the overlays
  are laid out by the branch of the current mode and the stage is rendered.
\<close>

definition onPointerMove :: "env \<Rightarrow> interaction_event \<Rightarrow> ui \<Rightarrow> ui" where
  "onPointerMove E event s =
     (if touchDevice E then s
      else
        (let s1 = s\<lparr>lastEvent := Some event\<rparr> in
         case ev_global event of
           None \<Rightarrow> s1
         | Some (gx, gy) \<Rightarrow>
             (if js_truthy gx \<and> 1 < length (prices s1) then
                (let x = js_mul gx (resolution (rend s1));
                     width = chart_width E s1
                 in render (if js_truthy (indicativePrice s1)
                            then pointer_auction E x gy width s1
                            else pointer_normal E x width s1))
              else s1)))"

text \<open>\<open>onPointerOut\<close>, which \<open>clearPrice\<close> calls.\<close>

definition onPointerOut :: "ui \<Rightarrow> ui" where
  "onPointerOut s =
     (let ovl = ov s in
      render (s\<lparr>ov := ovl\<lparr>
          buyPriceText := (buyPriceText ovl)\<lparr>l_visible := False\<rparr>,
          buyVolumeText := (buyVolumeText ovl)\<lparr>l_visible := False\<rparr>,
          buyVolRatioText := (buyVolRatioText ovl)\<lparr>l_visible := False\<rparr>,
          sellPriceText := (sellPriceText ovl)\<lparr>l_visible := False\<rparr>,
          sellVolumeText := (sellVolumeText ovl)\<lparr>l_visible := False\<rparr>,
          sellVolRatioText := (sellVolRatioText ovl)\<lparr>l_visible := False\<rparr>,
          buyIndicator := (buyIndicator ovl)\<lparr>i_visible := False\<rparr>,
          sellIndicator := (sellIndicator ovl)\<lparr>i_visible := False\<rparr>,
          buyOverlay := (buyOverlay ovl)\<lparr>r_visible := False\<rparr>,
          sellOverlay := (sellOverlay ovl)\<lparr>r_visible := False\<rparr>\<rparr>,
        lastEvent := None\<rparr>))"

definition clearPrice :: "ui \<Rightarrow> ui" where
  "clearPrice s = onPointerOut s"

definition set_indicativePrice :: "jsnum \<Rightarrow> ui \<Rightarrow> ui" where
  "set_indicativePrice price s = s\<lparr>indicativePrice := price\<rparr>"

text \<open>
  The arguments of \<open>UI.update\<close> that the modelled state keeps or passes on (the mid-price
  label and title go to the mid-market label only, the domain is passed to the axis as a
  sixth argument, which it does not take).
\<close>

record update_args =
  u_width :: jsnum
  u_height :: jsnum
  u_prices :: "jsnum list"
  u_volumes :: "jsnum list"
  u_midPrice :: jsnum
  u_priceLabels :: "string list"
  u_volumeLabels :: "string list"
  u_priceScale :: scale
  u_volumeScale :: scale

text \<open>
  \<open>UI.update\<close> up to its last statement: the curve data and scales are replaced and the
  horizontal axis is updated, which may throw.
\<close>

definition update_frame :: "env \<Rightarrow> update_args \<Rightarrow> ui \<Rightarrow> error + ui" where
  "update_frame E a s =
     (let s1 = s\<lparr>prices := u_prices a, volumes := u_volumes a, midPrice := u_midPrice a,
                 priceLabels := u_priceLabels a, volumeLabels := u_volumeLabels a,
                 priceScale := u_priceScale a, volumeScale := u_volumeScale a\<rparr>
      in case HorizontalAxis_update (chart E) (priceScale s1) (u_width a) (u_height a)
                (resolution (rend s1)) (ui_colors s1) (horizontalAxis s1) of
           Inl e \<Rightarrow> Inl e
         | Inr ax \<Rightarrow> Inr (s1\<lparr>horizontalAxis := ax\<rparr>))"

text \<open>\<open>UI.update\<close>: after the frame, the cached pointer event, if any, is handled again.\<close>

definition update :: "env \<Rightarrow> update_args \<Rightarrow> ui \<Rightarrow> error + ui" where
  "update E a s =
     (case update_frame E a s of
        Inl e \<Rightarrow> Inl e
      | Inr s1 \<Rightarrow>
          (case lastEvent s1 of
             None \<Rightarrow> Inr s1
           | Some event \<Rightarrow> Inr (onPointerMove E event s1)))"

text \<open>
  The constructor, from the default linear scale \<open>scaleLinear()\<close>, the display objects
  as their own constructors make them, the renderer made from the options and the
  colours: the eight labels are hidden, everything else has its field initialiser.
\<close>

definition new_UI :: "scale \<Rightarrow> overlays \<Rightarrow> renderer \<Rightarrow> colors \<Rightarrow> ui" where
  "new_UI sc0 ovl r cols =
     \<lparr>scaleExtent = (Fin 0, PosInf), ui_colors = cols,
      prices = [], volumes = [], priceLabels = [], volumeLabels = [],
      priceScale = sc0, volumeScale = sc0, midPrice = Fin 0, indicativePrice = Fin 0,
      transform = Fin 1, originalTransform = Fin 1,
      horizontalAxis = new_HorizontalAxis,
      ov = ovl\<lparr>buyPriceText := (buyPriceText ovl)\<lparr>l_visible := False\<rparr>,
              buyVolumeText := (buyVolumeText ovl)\<lparr>l_visible := False\<rparr>,
              buyVolRatioText := (buyVolRatioText ovl)\<lparr>l_visible := False\<rparr>,
              sellPriceText := (sellPriceText ovl)\<lparr>l_visible := False\<rparr>,
              sellVolumeText := (sellVolumeText ovl)\<lparr>l_visible := False\<rparr>,
              sellVolRatioText := (sellVolRatioText ovl)\<lparr>l_visible := False\<rparr>,
              auctionPriceText := (auctionPriceText ovl)\<lparr>l_visible := False\<rparr>,
              auctionVolumeText := (auctionVolumeText ovl)\<lparr>l_visible := False\<rparr>\<rparr>,
      rend = r, lastEvent = None,
      gest = \<lparr>taps = 0, touch0 = None, touch1 = None, wheel = None\<rparr>,
      emitted = [], timers = [], timer_count = 0, delaunayBuilds = 0\<rparr>"

section \<open>Notions used to state the properties\<close>

text \<open>
  A run of wheel events after one at time \<open>t\<close>: times do not decrease and each event
  comes less than 150 ms after the one before. \<open>last_time\<close> is the time of its last
  event.
\<close>

fun gaps :: "real \<Rightarrow> (real \<times> jsnum \<times> bool) list \<Rightarrow> bool" where
  "gaps t [] = True"
| "gaps t ((t', deltaY, ctrlKey) # evs) = (t \<le> t' \<and> t' < t + 150 \<and> gaps t' evs)"

fun last_time :: "real \<Rightarrow> (real \<times> jsnum \<times> bool) list \<Rightarrow> real" where
  "last_time t [] = t"
| "last_time t ((t', deltaY, ctrlKey) # evs) = last_time t' evs"

definition is_zoom :: "emitted \<Rightarrow> bool" where
  "is_zoom e = (case e of Zoom k \<Rightarrow> True | _ \<Rightarrow> False)"

text \<open>A wheel gesture is in progress: its timer is the only one pending, due 150 ms after \<open>t\<close>.\<close>

definition wheel_pending :: "ui \<Rightarrow> real \<Rightarrow> bool" where
  "wheel_pending s t =
     (case wheel (gest s) of None \<Rightarrow> False | Some h \<Rightarrow> h \<noteq> 0 \<and> timers s = [(h, t + 150)])"




text \<open>
  A sequence of touch events of the three kinds, handled in order; an exception ends it.
\<close>

datatype touch_input =
  TouchStart original_event | TouchMove original_event | TouchEnd original_event

fun touch_run :: "touch_input list \<Rightarrow> ui \<Rightarrow> error + ui" where
  "touch_run [] s = Inr s"
| "touch_run (TouchStart ev # ins) s = touch_run ins (on_touchstart ev s)"
| "touch_run (TouchMove ev # ins) s =
     (case on_touchmove ev s of Inl e \<Rightarrow> Inl e | Inr s' \<Rightarrow> touch_run ins s')"
| "touch_run (TouchEnd ev # ins) s = touch_run ins (on_touchend ev s)"

text \<open>
  The touch records of a gesture as the handlers keep them: a second touch is recorded
  only beside a first one, and the two have different identifiers.
\<close>

definition touches_ok :: "gesture \<Rightarrow> bool" where
  "touches_ok g =
     (case touch1 g of
        None \<Rightarrow> True
      | Some b \<Rightarrow> (case touch0 g of None \<Rightarrow> False | Some a \<Rightarrow> t_identifier a \<noteq> t_identifier b))"

text \<open>The formatted labels of the ticks that an \<open>update\<close> of the axis computes.\<close>

definition axis_labels :: "scale \<Rightarrow> jsnum \<Rightarrow> jsnum \<Rightarrow> string list" where
  "axis_labels sc width res =
     (let numTicks = js_div (js_div width res) (Fin 200)
      in map (sc_tickFormat sc numTicks) (sc_ticks sc numTicks))"

text \<open>The overlay groups of the buy side, the sell side and the auction are hidden.\<close>

definition buy_group_hidden :: "overlays \<Rightarrow> bool" where
  "buy_group_hidden ovl =
     (\<not> l_visible (buyPriceText ovl) \<and> \<not> l_visible (buyVolumeText ovl) \<and>
      \<not> l_visible (buyVolRatioText ovl) \<and> \<not> i_visible (buyIndicator ovl) \<and>
      \<not> r_visible (buyOverlay ovl))"

definition sell_group_hidden :: "overlays \<Rightarrow> bool" where
  "sell_group_hidden ovl =
     (\<not> l_visible (sellPriceText ovl) \<and> \<not> l_visible (sellVolumeText ovl) \<and>
      \<not> l_visible (sellVolRatioText ovl) \<and> \<not> i_visible (sellIndicator ovl) \<and>
      \<not> r_visible (sellOverlay ovl))"

definition auction_group_hidden :: "overlays \<Rightarrow> bool" where
  "auction_group_hidden ovl =
     (\<not> l_visible (auctionPriceText ovl) \<and> \<not> l_visible (auctionVolumeText ovl) \<and>
      \<not> i_visible (auctionIndicator ovl))"

text \<open>
  The pointer handler runs its layout on an event: not on a touch device, the event has
  a truthy \<open>x\<close> and there are at least two prices.
\<close>

definition handles :: "env \<Rightarrow> interaction_event \<Rightarrow> ui \<Rightarrow> bool" where
  "handles E event s =
     (\<not> touchDevice E \<and> 1 < length (prices s) \<and>
      (case ev_global event of None \<Rightarrow> False | Some (gx, gy) \<Rightarrow> js_truthy gx))"

text \<open>The pointer's device-pixel \<open>x\<close> of an event (\<open>NaN\<close> without data).\<close>

definition device_x :: "interaction_event \<Rightarrow> ui \<Rightarrow> jsnum" where
  "device_x event s =
     (case ev_global event of None \<Rightarrow> NaN | Some (gx, gy) \<Rightarrow> js_mul gx (resolution (rend s)))"

section \<open>Example inputs\<close>

text \<open>
  A chart of four points with the mid price at pixel 25: the view is 64.4 pixels wide at
  resolution 1 and the single volume tick prints as one character, so the chart width is
  \<open>64.4 - 8 * 1.8 = 50\<close> and its half is 25.
\<close>

definition ex_env :: env where
  "ex_env = \<lparr>touchDevice = False, compactFormat = (\<lambda>n. ''1.00K''), localeFormat = (\<lambda>n p. ''0''),
     getFloatNumber = (\<lambda>n. Fin 0), measureText = (\<lambda>t. (Fin 4, Fin 2)),
     numberToString = (\<lambda>r. ''1e+21''),
     chart = \<lparr>AXIS_HEIGHT = Fin 20, FONT_SIZE = Fin 12\<rparr>\<rparr>"

definition ex_scale :: scale where
  "ex_scale = \<lparr>sc_apply = (\<lambda>v. v), sc_invert = (\<lambda>v. v), sc_domain = (Fin 0, Fin 50),
     sc_ticks = (\<lambda>n. [Fin 0]), sc_tickFormat = (\<lambda>n v. ''0'')\<rparr>"

definition ex_label :: label where
  "ex_label = \<lparr>l_text = None, l_x = Fin 0, l_y = Fin 0, l_anchor = (Fin 0, Fin 0),
     l_width = Fin 0, l_height = Fin 0, l_visible = True\<rparr>"

definition ex_indicator :: indicator where
  "ex_indicator = \<lparr>i_x = Fin 0, i_y = Fin 0, i_width = Fin 0, i_height = Fin 0, i_visible = True\<rparr>"

definition ex_rect :: rect where
  "ex_rect = \<lparr>r_x = Fin 0, r_y = Fin 0, r_width = Fin 0, r_height = Fin 0, r_color = 0, r_visible = True\<rparr>"

definition ex_overlays :: overlays where
  "ex_overlays = \<lparr>buyIndicator = ex_indicator, sellIndicator = ex_indicator, auctionIndicator = ex_indicator,
     buyPriceText = ex_label, buyVolumeText = ex_label, buyVolRatioText = ex_label,
     sellPriceText = ex_label, sellVolumeText = ex_label, sellVolRatioText = ex_label,
     auctionPriceText = ex_label, auctionVolumeText = ex_label,
     buyOverlay = ex_rect, sellOverlay = ex_rect\<rparr>"

definition ex_colors :: colors where
  "ex_colors = \<lparr>backgroundSurface = 0, buyStroke = 1, sellStroke = 2, textPrimary = 3,
     textSecondary = 4, backgroundLabel = 5, overlay = 6\<rparr>"

definition ex_renderer :: renderer where
  "ex_renderer = \<lparr>resolution = Fin 1, view_width = Fin 64.4, view_height = Fin 300, renders = 0\<rparr>"

definition ex_ui :: ui where
  "ex_ui = new_UI ex_scale ex_overlays ex_renderer ex_colors"

definition ex_args :: update_args where
  "ex_args = \<lparr>u_width = Fin 64.4, u_height = Fin 300, u_prices = map Fin [10, 20, 30, 40],
     u_volumes = map Fin [5, 5, 5, 5], u_midPrice = Fin 25,
     u_priceLabels = [''10'', ''20'', ''30'', ''40''], u_volumeLabels = [''5'', ''5'', ''5'', ''5''],
     u_priceScale = ex_scale, u_volumeScale = ex_scale\<rparr>"

text \<open>A touch on a target at the origin without borders.\<close>

definition ex_touch :: "int \<Rightarrow> real \<Rightarrow> real \<Rightarrow> dom_touch" where
  "ex_touch i x y = \<lparr>dt_identifier = i, clientX = x, clientY = y, rect_left = 0, rect_top = 0,
     clientLeft = 0, clientTop = 0\<rparr>"

text \<open>Two price scales whose ticks print as 1, 2 and as 2, 3.\<close>

definition ex_tick_label :: "jsnum \<Rightarrow> string" where
  "ex_tick_label v =
     (if v = Fin 1 then ''1'' else if v = Fin 2 then ''2'' else if v = Fin 3 then ''3'' else ''?'')"

definition ex_scale12 :: scale where
  "ex_scale12 = \<lparr>sc_apply = (\<lambda>v. v), sc_invert = (\<lambda>v. v), sc_domain = (Fin 0, Fin 4),
     sc_ticks = (\<lambda>n. [Fin 1, Fin 2]), sc_tickFormat = (\<lambda>n. ex_tick_label)\<rparr>"

definition ex_scale23 :: scale where
  "ex_scale23 = \<lparr>sc_apply = (\<lambda>v. v), sc_invert = (\<lambda>v. v), sc_domain = (Fin 0, Fin 4),
     sc_ticks = (\<lambda>n. [Fin 2, Fin 3]), sc_tickFormat = (\<lambda>n. ex_tick_label)\<rparr>"

text \<open>
  The example chart after its first \<open>update\<close>, the same with a price label that is not
  a number, and the same in auction mode (the indicative price set before the update).
\<close>

definition ex_state :: ui where
  "ex_state = (case update ex_env ex_args ex_ui of Inl e \<Rightarrow> ex_ui | Inr s \<Rightarrow> s)"

definition ex_args_bad :: update_args where
  "ex_args_bad = ex_args\<lparr>u_priceLabels := [''10'', ''n/a'', ''30'', ''40'']\<rparr>"

definition ex_state_bad :: ui where
  "ex_state_bad = (case update ex_env ex_args_bad ex_ui of Inl e \<Rightarrow> ex_ui | Inr s \<Rightarrow> s)"

definition ex_auction :: ui where
  "ex_auction =
     (case update ex_env ex_args (set_indicativePrice (Fin 25) ex_ui) of
        Inl e \<Rightarrow> ex_ui | Inr s \<Rightarrow> s)"

definition ex_event :: "real \<Rightarrow> real \<Rightarrow> interaction_event" where
  "ex_event x y = \<lparr>ev_global = Some (Fin x, Fin y)\<rparr>"


section \<open>Properties of the binary searches\<close>

lemma arr_get_map_Fin [simp]:
  "k < length rs \<Longrightarrow> arr_get (map Fin rs) (int k) = Fin (rs ! k)"
  by (simp add: arr_get_def)

lemma bisectLeftLoop_range:
  "lo \<le> hi \<Longrightarrow> lo \<le> bisectLeftLoop a x lo hi \<and> bisectLeftLoop a x lo hi \<le> hi"
proof (induction a x lo hi rule: bisectLeftLoop.induct)
  case (1 a x lo hi)
  show ?case
  proof (cases "lo < hi")
    case False
    with "1.prems" show ?thesis by (subst bisectLeftLoop.simps, subst bisectLeftLoop.simps) simp
  next
    case True
    define mid where "mid = (lo + hi) div 2"
    have m: "lo \<le> mid" "mid < hi" using True by (auto simp: mid_def)
    show ?thesis
    proof (cases "js_lt (arr_get a (int mid)) x")
      case lt: True
      have "mid + 1 \<le> bisectLeftLoop a x (mid + 1) hi \<and> bisectLeftLoop a x (mid + 1) hi \<le> hi"
        using "1.IH"(1) [OF True mid_def lt] m by simp
      then show ?thesis
        using True lt m by (simp add: bisectLeftLoop.simps [of a x lo hi] mid_def [symmetric])
    next
      case ge: False
      have "lo \<le> bisectLeftLoop a x lo mid \<and> bisectLeftLoop a x lo mid \<le> mid"
        using "1.IH"(2) [OF True mid_def ge] m by simp
      then show ?thesis
        using True ge m by (simp add: bisectLeftLoop.simps [of a x lo hi] mid_def [symmetric])
    qed
  qed
qed

lemma bisectLeftLoop_sorted:
  assumes "sorted rs" "hi \<le> length rs" "lo \<le> hi"
  shows "(\<forall>k. lo \<le> k \<and> k < bisectLeftLoop (map Fin rs) (Fin x) lo hi \<longrightarrow> rs ! k < x) \<and>
         (\<forall>k. bisectLeftLoop (map Fin rs) (Fin x) lo hi \<le> k \<and> k < hi \<longrightarrow> x \<le> rs ! k)"
  using assms
proof (induction "map Fin rs" "Fin x" lo hi rule: bisectLeftLoop.induct)
  case (1 lo hi)
  show ?case
  proof (cases "lo < hi")
    case False
    then show ?thesis by (simp add: bisectLeftLoop.simps [of _ _ lo hi])
  next
    case True
    define mid where "mid = (lo + hi) div 2"
    have m: "lo \<le> mid" "mid < hi" "mid < length rs" using True "1.prems" by (auto simp: mid_def)
    show ?thesis
    proof (cases "rs ! mid < x")
      case lt: True
      then have c: "js_lt (arr_get (map Fin rs) (int mid)) (Fin x)" using m by simp
      have eq: "bisectLeftLoop (map Fin rs) (Fin x) lo hi = bisectLeftLoop (map Fin rs) (Fin x) (mid + 1) hi"
        using True c by (simp add: bisectLeftLoop.simps [of _ _ lo hi] mid_def [symmetric])
      have ih: "(\<forall>k. mid + 1 \<le> k \<and> k < bisectLeftLoop (map Fin rs) (Fin x) (mid + 1) hi \<longrightarrow> rs ! k < x) \<and>
         (\<forall>k. bisectLeftLoop (map Fin rs) (Fin x) (mid + 1) hi \<le> k \<and> k < hi \<longrightarrow> x \<le> rs ! k)"
        using "1.hyps"(1) [OF True mid_def c] "1.prems" m by simp
      have low: "rs ! k < x" if "lo \<le> k" "k \<le> mid" for k
      proof -
        have "rs ! k \<le> rs ! mid" using \<open>sorted rs\<close> that m by (simp add: sorted_nth_mono)
        with lt show ?thesis by simp
      qed
      show ?thesis unfolding eq using ih low
        by (metis Suc_eq_plus1 not_less_eq_eq)
    next
      case ge: False
      then have c: "\<not> js_lt (arr_get (map Fin rs) (int mid)) (Fin x)" using m by simp
      have eq: "bisectLeftLoop (map Fin rs) (Fin x) lo hi = bisectLeftLoop (map Fin rs) (Fin x) lo mid"
        using True c by (simp add: bisectLeftLoop.simps [of _ _ lo hi] mid_def [symmetric])
      have ih: "(\<forall>k. lo \<le> k \<and> k < bisectLeftLoop (map Fin rs) (Fin x) lo mid \<longrightarrow> rs ! k < x) \<and>
         (\<forall>k. bisectLeftLoop (map Fin rs) (Fin x) lo mid \<le> k \<and> k < mid \<longrightarrow> x \<le> rs ! k)"
        using "1.hyps"(2) [OF True mid_def c] "1.prems" m by simp
      have high: "x \<le> rs ! k" if "mid \<le> k" "k < hi" for k
      proof -
        have "rs ! mid \<le> rs ! k" using \<open>sorted rs\<close> that "1.prems" by (simp add: sorted_nth_mono)
        with ge show ?thesis by simp
      qed
      show ?thesis unfolding eq using ih high
        by (metis not_le_imp_less)
    qed
  qed
qed

lemma bisectLeftIn_sorted:
  assumes "sorted rs" "hi \<le> length rs"
  shows "bisectLeftIn (map Fin rs) (Fin x) 0 hi \<le> hi \<and>
         (\<forall>k. k < bisectLeftIn (map Fin rs) (Fin x) 0 hi \<longrightarrow> rs ! k < x) \<and>
         (\<forall>k. bisectLeftIn (map Fin rs) (Fin x) 0 hi \<le> k \<and> k < hi \<longrightarrow> x \<le> rs ! k)"
proof (cases "0 < hi")
  case True
  then have eq: "bisectLeftIn (map Fin rs) (Fin x) 0 hi = bisectLeftLoop (map Fin rs) (Fin x) 0 hi"
    by (simp add: bisectLeftIn_def)
  show ?thesis
    unfolding eq
    using bisectLeftLoop_sorted [OF assms, of 0 x] bisectLeftLoop_range [of 0 hi "map Fin rs" "Fin x"]
    by simp
next
  case False
  then show ?thesis by (simp add: bisectLeftIn_def)
qed

lemma bisectCenter_Fin:
  assumes "rs \<noteq> []" "i0 = bisectLeftIn (map Fin rs) (Fin x) 0 (length rs - 1)" "i0 \<le> length rs - 1"
  shows "bisectCenter (map Fin rs) (Fin x) =
           (if 0 < i0 \<and> \<bar>rs ! (i0 - 1) - x\<bar> \<le> \<bar>rs ! i0 - x\<bar> then i0 - 1 else i0)"
proof -
  have n: "0 < length rs" using assms(1) by simp
  have i0n: "i0 < length rs" using assms(3) n by arith
  have a: "arr_get (map Fin rs) (int i0) = Fin (rs ! i0)"
    using i0n by (simp add: arr_get_def)
  have b: "0 < i0 \<Longrightarrow> arr_get (map Fin rs) (int i0 - 1) = Fin (rs ! (i0 - 1))"
    using i0n by (simp add: arr_get_def nat_diff_distrib)
  have e: "bisectLeftIn (map Fin rs) (Fin x) 0 (length (map Fin rs) - 1) = i0"
    by (simp add: assms(2))
  show ?thesis
    unfolding bisectCenter_def e Let_def
    using a b by (auto simp: js_sub_def)
qed

text \<open>
  Claim C1. For strictly ascending finite prices and a finite pointer position \<open>x\<close>,
  the nearest-index lookup \<open>bisectCenter\<close> returns an index of the array at which the
  distance to \<open>x\<close> is least; every other index at the same distance is larger (ties go
  to the lower index); and for \<open>x\<close> beyond the last price it returns the last index.
\<close>

theorem bisectCenter_nearest:
  assumes ss: "sorted_wrt (<) rs" and ne: "rs \<noteq> []"
  shows "bisectCenter (map Fin rs) (Fin x) < length rs \<and>
         (\<forall>j < length rs. \<bar>rs ! bisectCenter (map Fin rs) (Fin x) - x\<bar> \<le> \<bar>rs ! j - x\<bar>) \<and>
         (\<forall>j < length rs. \<bar>rs ! j - x\<bar> = \<bar>rs ! bisectCenter (map Fin rs) (Fin x) - x\<bar>
              \<longrightarrow> bisectCenter (map Fin rs) (Fin x) \<le> j) \<and>
         (last rs < x \<longrightarrow> bisectCenter (map Fin rs) (Fin x) = length rs - 1)"
proof -
  define n where "n = length rs"
  define i0 where "i0 = bisectLeftIn (map Fin rs) (Fin x) 0 (n - 1)"
  define i where "i = bisectCenter (map Fin rs) (Fin x)"
  have n: "0 < n" using ne by (simp add: n_def)
  have srt: "sorted rs" using ss by (simp add: strict_sorted_imp_sorted)
  have mono: "rs ! j < rs ! k" if "j < k" "k < n" for j k
    using ss that by (simp add: sorted_wrt_nth_less n_def)
  have wmono: "rs ! j \<le> rs ! k" if "j \<le> k" "k < n" for j k
    using srt that by (simp add: sorted_nth_mono n_def)
  have bl: "i0 \<le> n - 1" "\<And>k. k < i0 \<Longrightarrow> rs ! k < x" "\<And>k. i0 \<le> k \<Longrightarrow> k < n - 1 \<Longrightarrow> x \<le> rs ! k"
    using bisectLeftIn_sorted [OF srt, of "n - 1" x] by (simp_all add: i0_def n_def)
  have ieq: "i = (if 0 < i0 \<and> \<bar>rs ! (i0 - 1) - x\<bar> \<le> \<bar>rs ! i0 - x\<bar> then i0 - 1 else i0)"
    unfolding i_def using bisectCenter_Fin [OF ne, of i0 x] bl(1) by (simp add: i0_def n_def)
  have i0n: "i0 < n" using bl(1) n by simp
  have hi: "x \<le> rs ! j \<or> j = n - 1" if "i0 \<le> j" "j < n" for j
    using bl(3) [of j] that by (cases "j < n - 1") auto
  have P1: "i < n" using ieq i0n by (auto split: if_splits)
  have P2: "\<bar>rs ! i - x\<bar> \<le> \<bar>rs ! j - x\<bar> \<and> (\<bar>rs ! j - x\<bar> = \<bar>rs ! i - x\<bar> \<longrightarrow> i \<le> j)" if j: "j < n" for j
  proof (cases "0 < i0 \<and> \<bar>rs ! (i0 - 1) - x\<bar> \<le> \<bar>rs ! i0 - x\<bar>")
    case True
    then have ii: "i = i0 - 1" and pos: "0 < i0" and cl: "\<bar>rs ! (i0 - 1) - x\<bar> \<le> \<bar>rs ! i0 - x\<bar>"
      using ieq by auto
    have lt: "rs ! (i0 - 1) < x" using bl(2) [of "i0 - 1"] pos by simp
    show ?thesis
    proof (cases "j < i0")
      case jl: True
      show ?thesis
      proof (cases "j = i0 - 1")
        case True then show ?thesis using ii by simp
      next
        case False
        then have "j < i0 - 1" using jl by simp
        then have "rs ! j < rs ! (i0 - 1)" using mono [of j "i0 - 1"] i0n by simp
        then show ?thesis using lt ii by auto
      qed
    next
      case jg: False
      then have ij: "i0 \<le> j" by simp
      have "\<bar>rs ! i0 - x\<bar> \<le> \<bar>rs ! j - x\<bar>"
      proof (cases "j = i0")
        case True then show ?thesis by simp
      next
        case False
        then have lt2: "i0 < j" using ij by simp
        then have "i0 < n - 1" using j by simp
        then have "x \<le> rs ! i0" using bl(3) [of i0] by simp
        moreover have "rs ! i0 \<le> rs ! j" using wmono [of i0 j] ij j by simp
        ultimately show ?thesis by simp
      qed
      then show ?thesis using cl ii ij pos by auto
    qed
  next
    case False
    then have ii: "i = i0" using ieq by auto
    show ?thesis
    proof (cases "j < i0")
      case jl: True
      then have pos: "0 < i0" by simp
      have far: "\<bar>rs ! i0 - x\<bar> < \<bar>rs ! (i0 - 1) - x\<bar>" using False pos by simp
      have "rs ! j \<le> rs ! (i0 - 1)" using wmono [of j "i0 - 1"] jl i0n by simp
      moreover have "rs ! (i0 - 1) < x" using bl(2) [of "i0 - 1"] pos by simp
      ultimately have "\<bar>rs ! (i0 - 1) - x\<bar> \<le> \<bar>rs ! j - x\<bar>" by simp
      then show ?thesis using far ii by auto
    next
      case jg: False
      then have ij: "i0 \<le> j" by simp
      have "\<bar>rs ! i0 - x\<bar> \<le> \<bar>rs ! j - x\<bar>"
      proof (cases "j = i0")
        case True then show ?thesis by simp
      next
        case False
        then have lt2: "i0 < j" using ij by simp
        then have "i0 < n - 1" using j by simp
        then have "x \<le> rs ! i0" using bl(3) [of i0] by simp
        moreover have "rs ! i0 \<le> rs ! j" using wmono [of i0 j] ij j by simp
        ultimately show ?thesis by simp
      qed
      then show ?thesis using ii ij by auto
    qed
  qed
  have P3: "i = n - 1" if beyond: "last rs < x"
  proof -
    have l: "rs ! (n - 1) < x" using beyond ne by (simp add: last_conv_nth n_def)
    have "i0 = n - 1"
    proof (rule ccontr)
      assume "i0 \<noteq> n - 1"
      then have a: "i0 < n - 1" using bl(1) by simp
      then have "x \<le> rs ! i0" using bl(3) [of i0] by simp
      moreover have "rs ! i0 < rs ! (n - 1)" using mono [of i0 "n - 1"] a n by simp
      ultimately show False using l by simp
    qed
    moreover have "\<not> \<bar>rs ! (i0 - 1) - x\<bar> \<le> \<bar>rs ! i0 - x\<bar>" if "0 < i0"
    proof -
      have "rs ! (i0 - 1) < rs ! i0" using mono [of "i0 - 1" i0] that i0n by simp
      then show ?thesis using l \<open>i0 = n - 1\<close> by simp
    qed
    ultimately show ?thesis using ieq by auto
  qed
  show ?thesis using P1 P2 P3 unfolding i_def n_def by blast
qed

theorem bisectCenter_nearest_witness:
  "sorted_wrt (<) [10, 20, 30, 40 :: real] \<and> [10, 20, 30, 40 :: real] \<noteq> [] \<and>
   last [10, 20, 30, 40 :: real] < 45 \<and>
   bisectCenter (map Fin [10, 20, 30, 40]) (Fin 45) = 3 \<and>
   bisectCenter (map Fin [10, 20, 30, 40]) (Fin 25) = 1 \<and>
   \<bar>[10, 20, 30, 40 :: real] ! bisectCenter (map Fin [10, 20, 30, 40]) (Fin 25) - 25\<bar> \<le> \<bar>30 - 25\<bar>"
proof -
  have s: "sorted_wrt (<) [10, 20, 30, 40 :: real]" by simp
  have n: "[10, 20, 30, 40 :: real] \<noteq> []" by simp
  have c: "bisectCenter (map Fin [10, 20, 30, 40]) (Fin 25) = 1" by code_simp
  have far: "bisectCenter (map Fin [10, 20, 30, 40]) (Fin 45) = 3"
    using bisectCenter_nearest [OF s n, of 45] by simp
  have "\<forall>j < length [10, 20, 30, 40 :: real].
          \<bar>[10, 20, 30, 40 :: real] ! bisectCenter (map Fin [10, 20, 30, 40]) (Fin 25) - 25\<bar>
                \<le> \<bar>[10, 20, 30, 40] ! j - 25\<bar>"
    using bisectCenter_nearest [OF s n, of 25] by blast
  then have "2 < length [10, 20, 30, 40 :: real] \<longrightarrow> 
          \<bar>[10, 20, 30, 40 :: real] ! bisectCenter (map Fin [10, 20, 30, 40]) (Fin 25) - 25\<bar>
                \<le> \<bar>[10, 20, 30, 40] ! 2 - 25\<bar>" by blast
  then have near: "\<bar>[10, 20, 30, 40 :: real] ! bisectCenter (map Fin [10, 20, 30, 40]) (Fin 25) - 25\<bar>
                \<le> \<bar>30 - 25\<bar>" by simp
  show ?thesis using s far c near by simp
qed


section \<open>Properties of the horizontal axis\<close>

lemma enter_tick_fields:
  "nodeByKeyValue (enter_tick K sc f h r cols node s) = AList.update (f node) (length (heap s)) (nodeByKeyValue s)"
  "tmByKeyValue (enter_tick K sc f h r cols node s) = AList.update (f node @ ''|'') (Suc (length (heap s))) (tmByKeyValue s)"
  "children (enter_tick K sc f h r cols node s) = children s @ [length (heap s), Suc (length (heap s))]"
  "length (heap (enter_tick K sc f h r cols node s)) = length (heap s) + 2"
  by (simp_all add: enter_tick_def alloc_def addChild_def Let_def)

lemma fold_enter_keys:
  "fst ` set (nodeByKeyValue (fold (enter_tick K sc f h r cols) nodes s))
     = fst ` set (nodeByKeyValue s) \<union> f ` set nodes"
  by (induction nodes arbitrary: s) (auto simp: enter_tick_fields dom_update)

lemma fold_enter_distinct:
  "distinct (map fst (nodeByKeyValue s)) \<Longrightarrow>
   distinct (map fst (nodeByKeyValue (fold (enter_tick K sc f h r cols) nodes s)))"
  by (induction nodes arbitrary: s) (simp_all add: enter_tick_fields distinct_update)

lemma update_tick_fields:
  assumes "update_tick K sc f h r cols node s = Inr s'"
  shows "nodeByKeyValue s' = nodeByKeyValue s" "tmByKeyValue s' = tmByKeyValue s"
    "children s' = children s" "length (heap s') = length (heap s)"
  using assms by (auto simp: update_tick_def Let_def split: option.splits)

lemma update_ticks_fields:
  assumes "update_ticks K sc f h r cols nodes s = Inr s'"
  shows "nodeByKeyValue s' = nodeByKeyValue s \<and> tmByKeyValue s' = tmByKeyValue s \<and>
    children s' = children s \<and> length (heap s') = length (heap s)"
  using assms
proof (induction nodes arbitrary: s)
  case Nil
  then show ?case by simp
next
  case (Cons node nodes)
  then obtain s1 where s1: "update_tick K sc f h r cols node s = Inr s1"
    "update_ticks K sc f h r cols nodes s1 = Inr s'"
    by (auto split: sum.splits)
  from Cons.IH [OF s1(2)] update_tick_fields [OF s1(1)] show ?case by simp
qed

lemma exit_key_node: "nodeByKeyValue (exit_key node s) = AList.delete node (nodeByKeyValue s)"
  by (simp add: exit_key_def removeChild_def Let_def split: option.splits)

lemma exit_key_tm: "tmByKeyValue (exit_key node s) = AList.delete node (tmByKeyValue s)"
  by (simp add: exit_key_def removeChild_def Let_def split: option.splits)

lemma delete_keys: "fst ` set (AList.delete k al) = fst ` set al - {k}"
  by (induction al) (auto simp: AList.delete_eq)

lemma fold_exit_keys:
  "fst ` set (nodeByKeyValue (fold exit_key nodes s)) = fst ` set (nodeByKeyValue s) - set nodes"
  by (induction nodes arbitrary: s) (auto simp: exit_key_node delete_keys)

lemma fold_exit_distinct:
  "distinct (map fst (nodeByKeyValue s)) \<Longrightarrow> distinct (map fst (nodeByKeyValue (fold exit_key nodes s)))"
  by (induction nodes arbitrary: s) (simp_all add: exit_key_node distinct_delete)

lemma map_has_iff: "map_has m k \<longleftrightarrow> k \<in> fst ` set m"
  by (simp add: map_has_def map_of_eq_None_iff)

text \<open>
  After an \<open>update\<close> that returns, the keys of the label cache are exactly the formatted
  labels of the current ticks, and they stay unique.
\<close>

lemma update_node_keys:
  assumes "HorizontalAxis_update K sc width height res cols s = Inr s'"
  shows "fst ` set (nodeByKeyValue s') = set (axis_labels sc width res)"
proof -
  define n where "n = js_div (js_div width res) (Fin 200)"
  define f where "f = sc_tickFormat sc n"
  define ticks where "ticks = sc_ticks sc n"
  define enter where "enter = filter (\<lambda>tick. \<not> map_has (nodeByKeyValue s) (f tick)) ticks"
  define upd where "upd = filter (\<lambda>tick. map_has (nodeByKeyValue s) (f tick)) ticks"
  define ex where "ex = filter (\<lambda>node. node \<notin> set (map f ticks)) (map fst (nodeByKeyValue s))"
  define s1 where "s1 = fold (enter_tick K sc f height res cols) enter s"
  from assms obtain s2 where s2: "update_ticks K sc f height res cols upd s1 = Inr s2"
    and s': "s' = fold exit_key ex s2"
    unfolding HorizontalAxis_update_def Let_def n_def [symmetric] f_def [symmetric] ticks_def [symmetric]
      enter_def [symmetric] upd_def [symmetric] ex_def [symmetric] s1_def [symmetric]
    by (auto split: sum.splits)
  have k1: "fst ` set (nodeByKeyValue s1) = fst ` set (nodeByKeyValue s) \<union> f ` set enter"
    unfolding s1_def by (rule fold_enter_keys)
  have k2: "nodeByKeyValue s2 = nodeByKeyValue s1" using update_ticks_fields [OF s2] by simp
  have k3: "fst ` set (nodeByKeyValue s') = fst ` set (nodeByKeyValue s2) - set ex"
    unfolding s' by (rule fold_exit_keys)
  have "fst ` set (nodeByKeyValue s') = f ` set ticks"
    unfolding k3 k2 k1 by (auto simp: enter_def ex_def map_has_iff)
  then show ?thesis by (simp add: axis_labels_def Let_def n_def f_def ticks_def)
qed

lemma update_node_distinct:
  assumes "HorizontalAxis_update K sc width height res cols s = Inr s'"
      and "distinct (map fst (nodeByKeyValue s))"
  shows "distinct (map fst (nodeByKeyValue s'))"
proof -
  define n where "n = js_div (js_div width res) (Fin 200)"
  define f where "f = sc_tickFormat sc n"
  define ticks where "ticks = sc_ticks sc n"
  define enter where "enter = filter (\<lambda>tick. \<not> map_has (nodeByKeyValue s) (f tick)) ticks"
  define upd where "upd = filter (\<lambda>tick. map_has (nodeByKeyValue s) (f tick)) ticks"
  define ex where "ex = filter (\<lambda>node. node \<notin> set (map f ticks)) (map fst (nodeByKeyValue s))"
  define s1 where "s1 = fold (enter_tick K sc f height res cols) enter s"
  from assms(1) obtain s2 where s2: "update_ticks K sc f height res cols upd s1 = Inr s2"
    and s': "s' = fold exit_key ex s2"
    unfolding HorizontalAxis_update_def Let_def n_def [symmetric] f_def [symmetric] ticks_def [symmetric]
      enter_def [symmetric] upd_def [symmetric] ex_def [symmetric] s1_def [symmetric]
    by (auto split: sum.splits)
  have "distinct (map fst (nodeByKeyValue s1))"
    unfolding s1_def using assms(2) by (rule fold_enter_distinct)
  then have "distinct (map fst (nodeByKeyValue s2))" using update_ticks_fields [OF s2] by simp
  then show ?thesis unfolding s' by (rule fold_exit_distinct)
qed

lemma update_same_labels:
  assumes "HorizontalAxis_update K sc width height res cols s = Inr s'"
      and "fst ` set (nodeByKeyValue s) = set (axis_labels sc width res)"
  shows "nodeByKeyValue s' = nodeByKeyValue s \<and> tmByKeyValue s' = tmByKeyValue s \<and>
         children s' = children s \<and> length (heap s') = length (heap s)"
proof -
  define n where "n = js_div (js_div width res) (Fin 200)"
  define f where "f = sc_tickFormat sc n"
  define ticks where "ticks = sc_ticks sc n"
  define enter where "enter = filter (\<lambda>tick. \<not> map_has (nodeByKeyValue s) (f tick)) ticks"
  define upd where "upd = filter (\<lambda>tick. map_has (nodeByKeyValue s) (f tick)) ticks"
  define ex where "ex = filter (\<lambda>node. node \<notin> set (map f ticks)) (map fst (nodeByKeyValue s))"
  define s1 where "s1 = fold (enter_tick K sc f height res cols) enter s"
  from assms(1) obtain s2 where s2: "update_ticks K sc f height res cols upd s1 = Inr s2"
    and s': "s' = fold exit_key ex s2"
    unfolding HorizontalAxis_update_def Let_def n_def [symmetric] f_def [symmetric] ticks_def [symmetric]
      enter_def [symmetric] upd_def [symmetric] ex_def [symmetric] s1_def [symmetric]
    by (auto split: sum.splits)
  have keys: "fst ` set (nodeByKeyValue s) = f ` set ticks"
    using assms(2) by (simp add: axis_labels_def Let_def n_def f_def ticks_def)
  have "enter = []" unfolding enter_def using keys by (auto simp: filter_empty_conv map_has_iff)
  then have e1: "s1 = s" by (simp add: s1_def)
  have "ex = []" unfolding ex_def using keys by (auto simp: filter_empty_conv)
  then have e2: "s' = s2" by (simp add: s')
  show ?thesis using update_ticks_fields [OF s2] e1 e2 by simp
qed

text \<open>
  Claim C3 at a failing input. The axis is updated with ticks that print as 1, 2 and
  then with ticks that print as 2, 3. The label cache then has the keys 2 and 3, and the
  nodes of tick 1 have left the visual tree, but the tick-mark cache still has the key
  of the exited tick 1: its entry was stored under \<open>1|\<close> and the deletion is called
  with \<open>1\<close>.
\<close>

theorem axis_tick_mark_cache_keeps_exited:
  "(case axis_updates (chart ex_env)
           [(ex_scale12, Fin 400, Fin 300, Fin 1, ex_colors), (ex_scale23, Fin 400, Fin 300, Fin 1, ex_colors)]
           new_HorizontalAxis of
      Inl e \<Rightarrow> ([], [], [])
    | Inr s \<Rightarrow> (map fst (nodeByKeyValue s), map fst (tmByKeyValue s), children s))
   = ([''2'', ''3''], [''1|'', ''2|'', ''3|''], [2, 3, 4, 5])"
  by code_simp

text \<open>
  Claim C4. The label cache being a \<open>Map\<close> (unique keys), take two successive
  \<open>update\<close> calls that return. If the second call has the same set of tick labels as
  the first, the label cache, the tick-mark cache and the children are the same
  addresses as before and no object was created. In any case the number of cached label
  nodes after the second call is the number of its distinct tick labels, which is the
  number of its ticks when no two of them print alike.
\<close>

theorem axis_identity_and_count:
  assumes m: "distinct (map fst (nodeByKeyValue s))"
      and u1: "HorizontalAxis_update K sc width height res cols s = Inr s1"
      and u2: "HorizontalAxis_update K sc' width' height' res' cols' s1 = Inr s2"
  shows "(set (axis_labels sc' width' res') = set (axis_labels sc width res) \<longrightarrow>
            nodeByKeyValue s2 = nodeByKeyValue s1 \<and> tmByKeyValue s2 = tmByKeyValue s1 \<and>
            children s2 = children s1 \<and> length (heap s2) = length (heap s1)) \<and>
         length (nodeByKeyValue s2) = card (set (axis_labels sc' width' res')) \<and>
         (distinct (axis_labels sc' width' res') \<longrightarrow>
            length (nodeByKeyValue s2) = length (axis_labels sc' width' res'))"
proof -
  have k1: "fst ` set (nodeByKeyValue s1) = set (axis_labels sc width res)"
    using update_node_keys [OF u1] .
  have k2: "fst ` set (nodeByKeyValue s2) = set (axis_labels sc' width' res')"
    using update_node_keys [OF u2] .
  have d2: "distinct (map fst (nodeByKeyValue s2))"
    using update_node_distinct [OF u2 update_node_distinct [OF u1 m]] .
  have "card (fst ` set (nodeByKeyValue s2)) = length (nodeByKeyValue s2)"
    using distinct_card [OF d2] by simp
  then have cnt: "length (nodeByKeyValue s2) = card (set (axis_labels sc' width' res'))"
    using k2 by simp
  have same: "nodeByKeyValue s2 = nodeByKeyValue s1 \<and> tmByKeyValue s2 = tmByKeyValue s1 \<and>
            children s2 = children s1 \<and> length (heap s2) = length (heap s1)"
    if "set (axis_labels sc' width' res') = set (axis_labels sc width res)"
    using update_same_labels [OF u2] k1 that by simp
  have len: "length (nodeByKeyValue s2) = length (axis_labels sc' width' res')"
    if "distinct (axis_labels sc' width' res')"
    using cnt distinct_card [OF that] by simp
  show ?thesis using cnt same len by blast
qed

theorem axis_identity_and_count_witness:
  "distinct (map fst (nodeByKeyValue new_HorizontalAxis)) \<and>
   (\<exists>s1 s2. HorizontalAxis_update (chart ex_env) ex_scale12 (Fin 400) (Fin 300) (Fin 1) ex_colors
                new_HorizontalAxis = Inr s1 \<and>
             HorizontalAxis_update (chart ex_env) ex_scale12 (Fin 400) (Fin 300) (Fin 1) ex_colors s1 = Inr s2 \<and>
             nodeByKeyValue s2 = nodeByKeyValue s1 \<and> children s2 = children s1 \<and>
             length (nodeByKeyValue s2) = 2)"
proof -
  have d: "distinct (map fst (nodeByKeyValue new_HorizontalAxis))"
    by (simp add: new_HorizontalAxis_def)
  have r: "case axis_updates (chart ex_env)
              [(ex_scale12, Fin 400, Fin 300, Fin 1, ex_colors), (ex_scale12, Fin 400, Fin 300, Fin 1, ex_colors)]
              new_HorizontalAxis of Inl e \<Rightarrow> False | Inr s \<Rightarrow> True"
    by code_simp
  then obtain s1 s2 where
    u1: "HorizontalAxis_update (chart ex_env) ex_scale12 (Fin 400) (Fin 300) (Fin 1) ex_colors
           new_HorizontalAxis = Inr s1" and
    u2: "HorizontalAxis_update (chart ex_env) ex_scale12 (Fin 400) (Fin 300) (Fin 1) ex_colors s1 = Inr s2"
    by (auto split: sum.splits)
  have c: "card (set (axis_labels ex_scale12 (Fin 400) (Fin 1))) = 2"
    by (simp add: axis_labels_def ex_scale12_def ex_tick_label_def)
  show ?thesis
    using axis_identity_and_count [OF d u1 u2] d u1 u2 c by auto
qed

section \<open>Properties of the gesture state machine\<close>

subsection \<open>Wheel\<close>

lemma run_timers_not_due:
  assumes "wheel_pending s t" "t' < t + 150"
  shows "run_timers t' s = s"
  using assms by (auto simp: wheel_pending_def run_timers_def split: option.splits)

lemma run_timers_idle:
  assumes "timers s = []"
  shows "run_timers t s = s"
  using assms by (simp add: run_timers_def)

lemma on_wheel_first:
  assumes "wheel (gest s) = None" "timers s = []"
  shows "wheel_pending (on_wheel t d c s) t \<and>
         (\<exists>k. emitted (on_wheel t d c s) = emitted s @ [ZoomStart, Zoom k])"
  using assms
  by (simp add: on_wheel_def wheel_pending_def emit_def setTimeout_def Let_def)

lemma on_wheel_next:
  assumes "wheel_pending s t"
  shows "wheel_pending (on_wheel t' d c s) t' \<and>
         (\<exists>k. emitted (on_wheel t' d c s) = emitted s @ [Zoom k])"
  using assms
  by (auto simp: on_wheel_def wheel_pending_def emit_def setTimeout_def clearTimeout_def Let_def
        split: option.splits)

lemma run_timers_due:
  assumes "wheel_pending s t" "t + 150 \<le> T"
  shows "emitted (run_timers T s) = emitted s @ [ZoomEnd] \<and> wheel (gest (run_timers T s)) = None
         \<and> timers (run_timers T s) = []"
  using assms
  by (auto simp: wheel_pending_def run_timers_def wheel_timeout_def emit_def split: option.splits)

lemma wheel_run_pending:
  assumes "wheel_pending s t" "gaps t evs"
  shows "wheel_pending (wheel_run evs s) (last_time t evs) \<and>
         (\<exists>zs. emitted (wheel_run evs s) = emitted s @ zs \<and> length zs = length evs \<and> (\<forall>e \<in> set zs. is_zoom e))"
  using assms
proof (induction evs arbitrary: s t)
  case Nil
  then show ?case by simp
next
  case (Cons ev evs)
  obtain t' d c where ev: "ev = (t', d, c)" by (cases ev)
  from Cons.prems ev have g: "t \<le> t'" "t' < t + 150" "gaps t' evs" by simp_all
  let ?s1 = "on_wheel t' d c (run_timers t' s)"
  have rt: "run_timers t' s = s" using run_timers_not_due [OF Cons.prems(1) g(2)] .
  from on_wheel_next [OF Cons.prems(1), of t' d c] rt
  obtain k where p1: "wheel_pending ?s1 t'" and e1: "emitted ?s1 = emitted s @ [Zoom k]" by auto
  from Cons.IH [OF p1 g(3)]
  obtain zs where p2: "wheel_pending (wheel_run evs ?s1) (last_time t' evs)"
    and e2: "emitted (wheel_run evs ?s1) = emitted ?s1 @ zs" "length zs = length evs" "\<forall>e \<in> set zs. is_zoom e"
    by auto
  have "emitted (wheel_run (ev # evs) s) = emitted s @ (Zoom k # zs)"
    using e1 e2 ev by simp
  moreover have "length (Zoom k # zs) = length (ev # evs)" using e2 by simp
  moreover have "\<forall>e \<in> set (Zoom k # zs). is_zoom e" using e2 by (simp add: is_zoom_def)
  ultimately show ?case using p2 ev by (metis last_time.simps(2) wheel_run.simps(2))
qed

text \<open>
  Claim C7. From an idle state (no wheel timer), a wheel event at time \<open>t\<close> followed by
  any number of wheel events, each less than 150 ms after the one before, emits exactly
  one \<open>zoomstart\<close>, first, and then only \<open>zoom\<close> events, one for each wheel event; when
  the timers are run 150 ms or more after the last event, exactly one \<open>zoomend\<close> is
  added and the wheel timer is reset.
\<close>

theorem wheel_gesture_one_start_one_end:
  assumes idle: "wheel (gest s) = None" "timers s = []"
      and run: "gaps t evs"
      and expiry: "last_time t evs + 150 \<le> T"
  shows "\<exists>zs. emitted (wheel_run ((t, d, c) # evs) s) = emitted s @ [ZoomStart] @ zs \<and>
              emitted (run_timers T (wheel_run ((t, d, c) # evs) s)) = emitted s @ [ZoomStart] @ zs @ [ZoomEnd] \<and>
              length zs = Suc (length evs) \<and> (\<forall>e \<in> set zs. is_zoom e) \<and>
              wheel (gest (run_timers T (wheel_run ((t, d, c) # evs) s))) = None"
proof -
  let ?s1 = "on_wheel t d c (run_timers t s)"
  have rt: "run_timers t s = s" using run_timers_idle [OF idle(2)] .
  from on_wheel_first [OF idle, of t d c] rt
  obtain k where p1: "wheel_pending ?s1 t" and e1: "emitted ?s1 = emitted s @ [ZoomStart, Zoom k]" by auto
  from wheel_run_pending [OF p1 run]
  obtain zs where p2: "wheel_pending (wheel_run evs ?s1) (last_time t evs)"
    and e2: "emitted (wheel_run evs ?s1) = emitted ?s1 @ zs" "length zs = length evs" "\<forall>e \<in> set zs. is_zoom e"
    by auto
  from run_timers_due [OF p2 expiry]
  have e3: "emitted (run_timers T (wheel_run evs ?s1)) = emitted (wheel_run evs ?s1) @ [ZoomEnd]"
    and w3: "wheel (gest (run_timers T (wheel_run evs ?s1))) = None" by auto
  have "emitted (wheel_run ((t, d, c) # evs) s) = emitted s @ [ZoomStart] @ (Zoom k # zs)"
    using e1 e2 by simp
  moreover have "emitted (run_timers T (wheel_run ((t, d, c) # evs) s)) = emitted s @ [ZoomStart] @ (Zoom k # zs) @ [ZoomEnd]"
    using e1 e2 e3 by simp
  moreover have "length (Zoom k # zs) = Suc (length evs)" using e2 by simp
  moreover have "\<forall>e \<in> set (Zoom k # zs). is_zoom e" using e2 by (simp add: is_zoom_def)
  moreover have "wheel (gest (run_timers T (wheel_run ((t, d, c) # evs) s))) = None" using w3 by simp
  ultimately show ?thesis by blast
qed

theorem wheel_gesture_witness:
  "wheel (gest ex_ui) = None \<and> timers ex_ui = [] \<and>
   gaps 0 [(100, Fin (- 100), False), (249, Fin (- 100), True)] \<and>
   last_time 0 [(100, Fin (- 100), False), (249, Fin (- 100), True)] + 150 \<le> 399 \<and>
   (\<exists>zs. emitted (run_timers 399 (wheel_run [(0, Fin (- 100), False), (100, Fin (- 100), False), (249, Fin (- 100), True)] ex_ui))
            = [ZoomStart] @ zs @ [ZoomEnd] \<and> length zs = 3)"
proof -
  have i: "wheel (gest ex_ui) = None" "timers ex_ui = []" "emitted ex_ui = []"
    by (simp_all add: ex_ui_def new_UI_def)
  have g: "gaps 0 [(100, Fin (- 100), False), (249, Fin (- 100), True)]" by simp
  have l: "last_time 0 [(100, Fin (- 100), False), (249, Fin (- 100), True)] + 150 \<le> 399" by simp
  show ?thesis
    using wheel_gesture_one_start_one_end [OF i(1,2) g l, of "Fin (- 100)" False] i g l
    by auto
qed


subsection \<open>Touch end\<close>

lemma touchend_loop_none:
  "touch0 g = None \<Longrightarrow> touch1 g = None \<Longrightarrow> touchend_loop changed g = g"
  by (induction changed) simp_all

lemma touchend_loop_only1:
  assumes "touch0 g = None" "touch1 g = Some b"
  shows "touchend_loop changed g =
           (if t_identifier b \<in> dt_identifier ` set changed then g\<lparr>touch1 := None\<rparr> else g)"
  using assms
proof (induction changed arbitrary: g)
  case Nil then show ?case by simp
next
  case (Cons c changed)
  show ?case
  proof (cases "t_identifier b = dt_identifier c")
    case True
    then show ?thesis using Cons.prems touchend_loop_none [of "g\<lparr>touch1 := None\<rparr>" changed] by simp
  next
    case False
    then show ?thesis using Cons by auto
  qed
qed

lemma touchend_loop_only0:
  assumes "touch0 g = Some a" "touch1 g = None"
  shows "touchend_loop changed g =
           (if t_identifier a \<in> dt_identifier ` set changed then g\<lparr>touch0 := None\<rparr> else g)"
  using assms
proof (induction changed arbitrary: g)
  case Nil then show ?case by simp
next
  case (Cons c changed)
  show ?case
  proof (cases "t_identifier a = dt_identifier c")
    case True
    then show ?thesis using Cons.prems touchend_loop_none [of "g\<lparr>touch0 := None\<rparr>" changed] by simp
  next
    case False
    then show ?thesis using Cons by auto
  qed
qed

lemma touchend_loop_both:
  assumes "touch0 g = Some a" "touch1 g = Some b" "t_identifier a \<noteq> t_identifier b"
  shows "touch0 (touchend_loop changed g) = (if t_identifier a \<in> dt_identifier ` set changed then None else Some a) \<and>
         touch1 (touchend_loop changed g) = (if t_identifier b \<in> dt_identifier ` set changed then None else Some b) \<and>
         taps (touchend_loop changed g) = taps g \<and> wheel (touchend_loop changed g) = wheel g"
  using assms
proof (induction changed arbitrary: g)
  case Nil then show ?case by simp
next
  case (Cons c changed)
  consider (a) "t_identifier a = dt_identifier c" | (b) "t_identifier a \<noteq> dt_identifier c" "t_identifier b = dt_identifier c"
    | (n) "t_identifier a \<noteq> dt_identifier c" "t_identifier b \<noteq> dt_identifier c" by blast
  then show ?case
  proof cases
    case a
    then show ?thesis using Cons.prems
      by (simp add: touchend_loop_only1 [of "g\<lparr>touch0 := None\<rparr>" b changed])
  next
    case b
    then show ?thesis using Cons.prems
      by (simp add: touchend_loop_only0 [of "g\<lparr>touch1 := None\<rparr>" a changed])
  next
    case n
    then show ?thesis using Cons by simp
  qed
qed

text \<open>
  Claim C8, as the code has it. In a pinch (both touches recorded, with different
  identifiers) a \<open>touchend\<close> emits \<open>zoomend\<close>. If the first touch is among the
  changed touches, both touch records are cleared. If only the second touch is among
  them, the second record is cleared and the first one stays.
\<close>

theorem touchend_of_pinch:
  assumes "touch0 (gest s) = Some a" "touch1 (gest s) = Some b" "t_identifier a \<noteq> t_identifier b"
  shows "emitted (on_touchend (TouchEvent touches changed) s) = emitted s @ [ZoomEnd] \<and>
         (t_identifier a \<in> dt_identifier ` set changed \<longrightarrow>
            touch0 (gest (on_touchend (TouchEvent touches changed) s)) = None \<and>
            touch1 (gest (on_touchend (TouchEvent touches changed) s)) = None) \<and>
         (t_identifier a \<notin> dt_identifier ` set changed \<and> t_identifier b \<in> dt_identifier ` set changed \<longrightarrow>
            touch0 (gest (on_touchend (TouchEvent touches changed) s)) = Some a \<and>
            touch1 (gest (on_touchend (TouchEvent touches changed) s)) = None)"
  using touchend_loop_both [OF assms, of changed]
  by (auto simp: on_touchend_def emit_def Let_def)

lemma touchstart_two:
  assumes "touch0 (gest s) = None" "touch1 (gest s) = None" "dt_identifier A \<noteq> dt_identifier B"
  shows "gest (on_touchstart (TouchEvent [A, B] ch) s) =
           (gest s)\<lparr>touch0 := Some \<lparr>point = pointer A, originalPoint = pointer A, t_identifier = dt_identifier A\<rparr>,
                    touch1 := Some \<lparr>point = pointer B, originalPoint = pointer B, t_identifier = dt_identifier B\<rparr>,
                    taps := 0\<rparr>"
    and "originalTransform (on_touchstart (TouchEvent [A, B] ch) s) = transform s"
    and "transform (on_touchstart (TouchEvent [A, B] ch) s) = transform s"
    and "scaleExtent (on_touchstart (TouchEvent [A, B] ch) s) = scaleExtent s"
    and "emitted (on_touchstart (TouchEvent [A, B] ch) s) = emitted s @ [ZoomStart]"
  using assms by (simp_all add: on_touchstart_def emit_def Let_def)

theorem touchend_of_pinch_witness:
  "touch0 (gest (on_touchstart (TouchEvent [ex_touch 1 0 0, ex_touch 2 3 4] []) ex_ui)) \<noteq> None \<and>
   touch1 (gest (on_touchstart (TouchEvent [ex_touch 1 0 0, ex_touch 2 3 4] []) ex_ui)) \<noteq> None \<and>
   touch0 (gest (on_touchend (TouchEvent [ex_touch 2 3 4] [ex_touch 1 0 0])
     (on_touchstart (TouchEvent [ex_touch 1 0 0, ex_touch 2 3 4] []) ex_ui))) = None \<and>
   touch1 (gest (on_touchend (TouchEvent [ex_touch 2 3 4] [ex_touch 1 0 0])
     (on_touchstart (TouchEvent [ex_touch 1 0 0, ex_touch 2 3 4] []) ex_ui))) = None \<and>
   emitted (on_touchend (TouchEvent [ex_touch 2 3 4] [ex_touch 1 0 0])
     (on_touchstart (TouchEvent [ex_touch 1 0 0, ex_touch 2 3 4] []) ex_ui)) = [ZoomStart, ZoomEnd]"
proof -
  let ?s = "on_touchstart (TouchEvent [ex_touch 1 0 0, ex_touch 2 3 4] []) ex_ui"
  let ?a = "\<lparr>point = (0, 0), originalPoint = (0, 0), t_identifier = 1\<rparr>"
  let ?b = "\<lparr>point = (3, 4), originalPoint = (3, 4), t_identifier = 2\<rparr>"
  have i: "touch0 (gest ex_ui) = None" "touch1 (gest ex_ui) = None" "emitted ex_ui = []"
    by (simp_all add: ex_ui_def new_UI_def)
  have d: "dt_identifier (ex_touch 1 0 0) \<noteq> dt_identifier (ex_touch 2 3 4)"
    by (simp add: ex_touch_def)
  have g: "touch0 (gest ?s) = Some ?a" "touch1 (gest ?s) = Some ?b"
    using touchstart_two(1) [OF i(1,2) d, of "[]"] by (simp_all add: ex_touch_def pointer_def)
  have e: "emitted ?s = [ZoomStart]"
    using touchstart_two(5) [OF i(1,2) d, of "[]"] i(3) by simp
  have n: "t_identifier ?a \<noteq> t_identifier ?b" by simp
  show ?thesis
    using touchend_of_pinch [OF g n, of "[ex_touch 2 3 4]" "[ex_touch 1 0 0]"] g e
    by (simp add: ex_touch_def)
qed

text \<open>
  The claim as stated fails when the second touch ends: after two touches start and the
  one recorded second ends, the first touch record is still there.
\<close>

theorem touchend_second_keeps_first:
  "touch0 (gest (on_touchend (TouchEvent [ex_touch 1 0 0] [ex_touch 2 3 4])
     (on_touchstart (TouchEvent [ex_touch 1 0 0, ex_touch 2 3 4] []) ex_ui)))
   = Some \<lparr>point = (0, 0), originalPoint = (0, 0), t_identifier = 1\<rparr>"
proof -
  let ?s = "on_touchstart (TouchEvent [ex_touch 1 0 0, ex_touch 2 3 4] []) ex_ui"
  have i: "touch0 (gest ex_ui) = None" "touch1 (gest ex_ui) = None"
    by (simp_all add: ex_ui_def new_UI_def)
  have d: "dt_identifier (ex_touch 1 0 0) \<noteq> dt_identifier (ex_touch 2 3 4)"
    by (simp add: ex_touch_def)
  have g: "touch0 (gest ?s) = Some \<lparr>point = (0, 0), originalPoint = (0, 0), t_identifier = 1\<rparr>"
    "touch1 (gest ?s) = Some \<lparr>point = (3, 4), originalPoint = (3, 4), t_identifier = 2\<rparr>"
    using touchstart_two(1) [OF i d, of "[]"] by (simp_all add: ex_touch_def pointer_def)
  have n: "t_identifier \<lparr>point = (0, 0), originalPoint = (0, 0), t_identifier = 1\<rparr>
           \<noteq> t_identifier \<lparr>point = (3 :: real, 4 :: real), originalPoint = (3, 4), t_identifier = 2\<rparr>"
    by simp
  have c: "dt_identifier ` set [ex_touch 2 3 4] = {2}" by (simp add: ex_touch_def)
  have l: "touch0 (touchend_loop [ex_touch 2 3 4] (gest ?s))
             = Some \<lparr>point = (0, 0), originalPoint = (0, 0), t_identifier = 1\<rparr>"
    "touch1 (touchend_loop [ex_touch 2 3 4] (gest ?s)) = None"
    using touchend_loop_both [OF g n, of "[ex_touch 2 3 4]"] c
    by (simp_all del: touchend_loop.simps)
  show ?thesis
    by (simp add: on_touchend_def emit_def Let_def l del: touchend_loop.simps)
qed


subsection \<open>Pinch\<close>









lemma touchstart_loop_ok:
  "touches_ok g \<Longrightarrow> touches_ok (snd (touchstart_loop touches (started, g)))"
proof (induction touches arbitrary: started g)
  case Nil
  then show ?case by simp
next
  case (Cons c touches)
  show ?case
  proof (cases "touch0 g")
    case None
    then have "touches_ok (g\<lparr>touch0 := Some \<lparr>point = pointer c, originalPoint = pointer c, t_identifier = dt_identifier c\<rparr>\<rparr>)"
      using Cons.prems by (auto simp: touches_ok_def split: option.splits)
    then show ?thesis using None Cons.IH by (simp add: Let_def)
  next
    case (Some t0)
    show ?thesis
    proof (cases "touch1 g = None \<and> t_identifier t0 \<noteq> dt_identifier c")
      case True
      then have "touches_ok (g\<lparr>touch1 := Some \<lparr>point = pointer c, originalPoint = pointer c, t_identifier = dt_identifier c\<rparr>, taps := 0\<rparr>)"
        using Some by (simp add: touches_ok_def)
      then show ?thesis using Some True Cons.IH by (simp add: Let_def)
    next
      case False
      then show ?thesis using Some Cons.IH [OF Cons.prems] by (auto simp: Let_def)
    qed
  qed
qed

lemma on_touchstart_ok: "touches_ok (gest s) \<Longrightarrow> touches_ok (gest (on_touchstart ev s))"
proof (cases ev)
  case (TouchEvent touches changed)
  assume ok: "touches_ok (gest s)"
  obtain st g where l: "touchstart_loop touches (False, gest s) = (st, g)" by (cases "touchstart_loop touches (False, gest s)")
  have "touches_ok g" using touchstart_loop_ok [OF ok, of touches False] l by simp
  then show ?thesis using TouchEvent l by (simp add: on_touchstart_def emit_def Let_def)
next
  case OtherEvent
  assume "touches_ok (gest s)"
  then show ?thesis using OtherEvent by (simp add: on_touchstart_def)
qed

lemma touchmove_loop_ids:
  "map_option t_identifier (touch0 (touchmove_loop changed g)) = map_option t_identifier (touch0 g) \<and>
   map_option t_identifier (touch1 (touchmove_loop changed g)) = map_option t_identifier (touch1 g)"
proof (induction changed g rule: touchmove_loop.induct)
  case (1 g)
  then show ?case by simp
next
  case (2 touch touches g)
  show ?case
  proof (cases "touch0 g")
    case None
    show ?thesis
    proof (cases "touch1 g")
      case n1: None
      then show ?thesis using None "2.IH" by simp
    next
      case (Some t1)
      then show ?thesis using None "2.IH" by (cases "t_identifier t1 = dt_identifier touch") simp_all
    qed
  next
    case (Some t0)
    show ?thesis
    proof (cases "t_identifier t0 = dt_identifier touch")
      case True
      then show ?thesis using Some "2.IH" by simp
    next
      case False
      show ?thesis
      proof (cases "touch1 g")
        case None
        then show ?thesis using Some False "2.IH" by simp
      next
        case s1: (Some t1)
        then show ?thesis using Some False "2.IH"
          by (cases "t_identifier t1 = dt_identifier touch") simp_all
      qed
    qed
  qed
qed

lemma touches_ok_ids:
  "touches_ok g \<longleftrightarrow>
     (case map_option t_identifier (touch1 g) of None \<Rightarrow> True
      | Some j \<Rightarrow> (case map_option t_identifier (touch0 g) of None \<Rightarrow> False | Some i \<Rightarrow> i \<noteq> j))"
  by (auto simp: touches_ok_def split: option.splits)

lemma touchmove_loop_ok: "touches_ok g \<Longrightarrow> touches_ok (touchmove_loop changed g)"
  by (metis touchmove_loop_ids touches_ok_ids)

lemma on_touchmove_ok:
  assumes "touches_ok (gest s)"
  shows "\<exists>s'. on_touchmove ev s = Inr s' \<and> touches_ok (gest s')"
proof (cases ev)
  case (TouchEvent touches changed)
  have ok: "touches_ok (touchmove_loop changed (gest s))" using assms by (rule touchmove_loop_ok)
  then show ?thesis using TouchEvent
    by (auto simp: on_touchmove_def Let_def emit_def touches_ok_def split: option.splits)
next
  case OtherEvent
  then show ?thesis using assms by (simp add: on_touchmove_def)
qed

lemma touchend_loop_sub:
  "(touch0 (touchend_loop changed g) = None \<or> touch0 (touchend_loop changed g) = touch0 g) \<and>
   (touch1 (touchend_loop changed g) = None \<or> touch1 (touchend_loop changed g) = touch1 g)"
proof (induction changed arbitrary: g)
  case Nil
  then show ?case by simp
next
  case (Cons c changed)
  show ?case
    using Cons.IH [of g] Cons.IH [of "g\<lparr>touch0 := None\<rparr>"] Cons.IH [of "g\<lparr>touch1 := None\<rparr>"]
    by (auto split: option.splits)
qed

lemma on_touchend_ok: "touches_ok (gest s) \<Longrightarrow> touches_ok (gest (on_touchend ev s))"
proof (cases ev)
  case (TouchEvent touches changed)
  assume ok: "touches_ok (gest s)"
  show ?thesis
    using touchend_loop_sub [of changed "gest s"] ok TouchEvent
    by (auto simp: on_touchend_def emit_def Let_def touches_ok_def split: option.splits)
next
  case OtherEvent
  assume "touches_ok (gest s)"
  then show ?thesis using OtherEvent by (simp add: on_touchend_def)
qed

lemma touch_run_ok:
  assumes "touches_ok (gest s)"
  shows "\<exists>s'. touch_run ins s = Inr s' \<and> touches_ok (gest s')"
  using assms
proof (induction ins arbitrary: s)
  case Nil
  then show ?case by simp
next
  case (Cons i ins)
  show ?case
  proof (cases i)
    case (TouchStart ev)
    then show ?thesis using Cons.IH [OF on_touchstart_ok [OF Cons.prems, of ev]] by simp
  next
    case (TouchMove ev)
    from on_touchmove_ok [OF Cons.prems, of ev] obtain s1 where
      s1: "on_touchmove ev s = Inr s1" "touches_ok (gest s1)" by blast
    then show ?thesis using TouchMove Cons.IH [OF s1(2)] by simp
  next
    case (TouchEnd ev)
    then show ?thesis using Cons.IH [OF on_touchend_ok [OF Cons.prems, of ev]] by simp
  qed
qed



text \<open>
  From a state without touch records, no sequence of touch events throws, and every
  state it reaches keeps its touch records as described: a pinch state that is reached
  has two touches with different identifiers.
\<close>

lemma touch_run_from_idle:
  assumes "touch0 (gest s0) = None" "touch1 (gest s0) = None"
  shows "\<exists>s. touch_run ins s0 = Inr s \<and> touches_ok (gest s)"
  by (rule touch_run_ok) (simp add: touches_ok_def assms)




section \<open>Properties of the pointer handling\<close>

subsection \<open>The handler and its branches\<close>

lemma render_fields [simp]:
  "ov (render s) = ov s" "lastEvent (render s) = lastEvent s" "delaunayBuilds (render s) = delaunayBuilds s"
  "prices (render s) = prices s"
  by (simp_all add: render_def)

lemma onPointerMove_normal:
  assumes "handles E event s" "\<not> js_truthy (indicativePrice s)"
  shows "onPointerMove E event s =
           render (pointer_normal E (device_x event s) (chart_width E (s\<lparr>lastEvent := Some event\<rparr>))
                     (s\<lparr>lastEvent := Some event\<rparr>))"
  using assms
  by (auto simp: onPointerMove_def handles_def device_x_def Let_def split: option.splits)

lemma onPointerMove_auction:
  assumes "handles E event s" "js_truthy (indicativePrice s)" "ev_global event = Some (gx, gy)"
  shows "onPointerMove E event s =
           render (pointer_auction E (device_x event s) gy (chart_width E (s\<lparr>lastEvent := Some event\<rparr>))
                     (s\<lparr>lastEvent := Some event\<rparr>))"
  using assms
  by (auto simp: onPointerMove_def handles_def device_x_def Let_def split: option.splits)

lemma chart_width_lastEvent [simp]: "chart_width E (s\<lparr>lastEvent := e\<rparr>) = chart_width E s"
  by (simp add: chart_width_def)

lemma pointer_normal_ov:
  assumes "pointer_sides (prices s) x width (sc_apply (priceScale s) (midPrice s)) = (bi, si, bx, sx)"
  shows "l_text (buyVolRatioText (ov (pointer_normal E x width s)))
           = Some (ratio_text E (str_get (priceLabels s) bi) (midPrice s))"
    and "l_text (sellVolRatioText (ov (pointer_normal E x width s)))
           = Some (''+'' @ ratio_text E (str_get (priceLabels s) si) (midPrice s))"
    and "l_text (buyPriceText (ov (pointer_normal E x width s))) = str_get (priceLabels s) bi"
    and "l_text (sellPriceText (ov (pointer_normal E x width s))) = str_get (priceLabels s) si"
    and "i_x (buyIndicator (ov (pointer_normal E x width s))) = bx"
    and "i_x (sellIndicator (ov (pointer_normal E x width s))) = sx"
    and "bi = - 1 \<Longrightarrow> buy_group_hidden (ov (pointer_normal E x width s))"
    and "si = - 1 \<Longrightarrow> sell_group_hidden (ov (pointer_normal E x width s))"
    and "l_visible (buyVolRatioText (ov (pointer_normal E x width s)))
           = l_visible (buyPriceText (ov (pointer_normal E x width s)))"
    and "l_visible (sellVolRatioText (ov (pointer_normal E x width s)))
           = l_visible (sellPriceText (ov (pointer_normal E x width s)))"
  using assms
  by (simp_all add: pointer_normal_def Let_def Label_update_def Indicator_update_def Rect_update_def
        buy_group_hidden_def sell_group_hidden_def)

lemma pointer_normal_visible:
  assumes "pointer_sides (prices s) x width (sc_apply (priceScale s) (midPrice s)) = (bi, si, bx, sx)"
  shows "l_visible (buyVolRatioText (ov (pointer_normal E x width s)))
           = (js_gt (sc_invert (priceScale s) bx) (fst (sc_domain (priceScale s))) \<and>
              js_lt (arr_get (prices s) 0) (js_div width (Fin 2)) \<and> bi \<noteq> - 1)"
  using assms
  by (simp add: pointer_normal_def Let_def Label_update_def)

lemma pointer_sides_cases:
  assumes "pointer_sides ps x width mid = (bi, si, bx, sx)"
  shows "(js_gt x (js_div width (Fin 2)) \<longrightarrow>
            si = int (bisectCenter ps x) \<and> sx = arr_get ps (int (bisectCenter ps x)) \<and>
            bx = js_sub (js_mul (Fin 2) mid) (arr_get ps (int (bisectCenter ps x))) \<and>
            bi = (if js_ge (arr_get ps 0) (js_div width (Fin 2)) then - 1
                  else int (bisectLeft ps (js_sub (js_mul (Fin 2) mid) (arr_get ps (int (bisectCenter ps x))))) - 1)) \<and>
         (\<not> js_gt x (js_div width (Fin 2)) \<longrightarrow>
            bi = int (bisectCenter ps x) \<and> bx = arr_get ps (int (bisectCenter ps x)) \<and>
            sx = js_sub (js_mul (Fin 2) mid) (arr_get ps (int (bisectCenter ps x))) \<and>
            si = (if js_le (arr_get ps (int (length ps) - 1)) (js_div width (Fin 2)) then - 1
                  else int (bisectRight ps (js_sub (js_mul (Fin 2) mid) (arr_get ps (int (bisectCenter ps x))))) - 1))"
  using assms by (auto simp: pointer_sides_def Let_def split: if_splits)

lemma ratio_text_NaN: "fRound lbl = NaN \<Longrightarrow> ratio_text E lbl mid = ''NaN%''"
  by (simp add: ratio_text_def js_sub_def toFixed2_def)

lemma pointer_auction_fields [simp]:
  "delaunayBuilds (pointer_auction E x gy width s) = delaunayBuilds s + 1"
  "prices (pointer_auction E x gy width s) = prices s"
  "volumes (pointer_auction E x gy width s) = volumes s"
  "indicativePrice (pointer_auction E x gy width s) = indicativePrice s"
  "rend (pointer_auction E x gy width s) = rend s"
  "volumeScale (pointer_auction E x gy width s) = volumeScale s"
  "lastEvent (pointer_auction E x gy width s) = lastEvent s"
  by (simp_all add: pointer_auction_def Let_def)

lemma render_more_fields [simp]:
  "volumes (render s) = volumes s" "indicativePrice (render s) = indicativePrice s"
  "resolution (rend (render s)) = resolution (rend s)"
  "view_width (rend (render s)) = view_width (rend s)"
  "view_height (rend (render s)) = view_height (rend s)"
  "volumeScale (render s) = volumeScale s"
  by (simp_all add: render_def)

lemma pointer_auction_near:
  assumes "js_lt (js_hypot (js_sub x (arr_get (prices s) (Delaunay_find (zip (prices s) (volumes s)) x (js_mul gy (resolution (rend s))))))
                           (js_sub (js_mul gy (resolution (rend s)))
                              (arr_get (volumes s) (Delaunay_find (zip (prices s) (volumes s)) x (js_mul gy (resolution (rend s)))))))
                 (js_mul (Fin 50) (resolution (rend s)))"
  shows "l_visible (auctionPriceText (ov (pointer_auction E x gy width s)))"
    and "l_visible (auctionVolumeText (ov (pointer_auction E x gy width s)))"
    and "i_visible (auctionIndicator (ov (pointer_auction E x gy width s)))"
  using assms by (simp_all add: pointer_auction_def Let_def)

lemma onPointerOut_fields:
  "lastEvent (onPointerOut s) = None"
  "auctionPriceText (ov (onPointerOut s)) = auctionPriceText (ov s)"
  "auctionVolumeText (ov (onPointerOut s)) = auctionVolumeText (ov s)"
  "auctionIndicator (ov (onPointerOut s)) = auctionIndicator (ov s)"
  "buy_group_hidden (ov (onPointerOut s))"
  "sell_group_hidden (ov (onPointerOut s))"
  by (simp_all add: onPointerOut_def Let_def buy_group_hidden_def sell_group_hidden_def)

subsection \<open>The update and the example states\<close>

lemma update_frame_fields:
  assumes "update_frame E a s = Inr s1"
  shows "ov s1 = ov s" "lastEvent s1 = lastEvent s" "rend s1 = rend s"
    "prices s1 = u_prices a" "volumes s1 = u_volumes a"
    "priceLabels s1 = u_priceLabels a" "volumeLabels s1 = u_volumeLabels a"
    "priceScale s1 = u_priceScale a" "volumeScale s1 = u_volumeScale a" "midPrice s1 = u_midPrice a"
    "indicativePrice s1 = indicativePrice s" "delaunayBuilds s1 = delaunayBuilds s"
    "ui_colors s1 = ui_colors s"
  using assms by (auto simp: update_frame_def Let_def split: sum.splits)

lemma update_no_event:
  assumes "lastEvent s = None"
  shows "update E a s = update_frame E a s"
proof (cases "update_frame E a s")
  case (Inl e)
  then show ?thesis by (simp add: update_def)
next
  case (Inr s1)
  then show ?thesis using update_frame_fields(2) [OF Inr] assms by (simp add: update_def)
qed

lemma ex_ui_fields:
  "lastEvent ex_ui = None" "rend ex_ui = ex_renderer" "indicativePrice ex_ui = Fin 0"
  "delaunayBuilds ex_ui = 0" "ui_colors ex_ui = ex_colors" "horizontalAxis ex_ui = new_HorizontalAxis"
  by (simp_all add: ex_ui_def new_UI_def)

lemma ex_axis_update:
  "\<exists>ax. HorizontalAxis_update (chart ex_env) ex_scale (Fin 64.4) (Fin 300) (Fin 1) ex_colors
           new_HorizontalAxis = Inr ax"
proof -
  have "case HorizontalAxis_update (chart ex_env) ex_scale (Fin 64.4) (Fin 300) (Fin 1) ex_colors
           new_HorizontalAxis of Inl e \<Rightarrow> False | Inr ax \<Rightarrow> True"
    by code_simp
  then show ?thesis by (auto split: sum.splits)
qed

lemma ex_update_frame:
  assumes "horizontalAxis s = new_HorizontalAxis" "rend s = ex_renderer" "ui_colors s = ex_colors"
    "u_priceScale a = ex_scale" "u_width a = Fin 64.4" "u_height a = Fin 300"
  shows "\<exists>s1. update_frame ex_env a s = Inr s1"
  using ex_axis_update assms
  by (auto simp: update_frame_def Let_def ex_renderer_def split: sum.splits)

lemma ex_state_update: "update ex_env ex_args ex_ui = Inr ex_state"
proof -
  obtain s1 where "update_frame ex_env ex_args ex_ui = Inr s1"
    using ex_update_frame [of ex_ui ex_args] by (auto simp: ex_ui_fields ex_args_def)
  then show ?thesis
    by (simp add: ex_state_def update_no_event [OF ex_ui_fields(1)])
qed

lemma ex_state_bad_update: "update ex_env ex_args_bad ex_ui = Inr ex_state_bad"
proof -
  obtain s1 where "update_frame ex_env ex_args_bad ex_ui = Inr s1"
    using ex_update_frame [of ex_ui ex_args_bad] by (auto simp: ex_ui_fields ex_args_def ex_args_bad_def)
  then show ?thesis
    by (simp add: ex_state_bad_def update_no_event [OF ex_ui_fields(1)])
qed

lemma ex_auction_update: "update ex_env ex_args (set_indicativePrice (Fin 25) ex_ui) = Inr ex_auction"
proof -
  have l: "lastEvent (set_indicativePrice (Fin 25) ex_ui) = None"
    by (simp add: set_indicativePrice_def ex_ui_fields)
  obtain s1 where "update_frame ex_env ex_args (set_indicativePrice (Fin 25) ex_ui) = Inr s1"
    using ex_update_frame [of "set_indicativePrice (Fin 25) ex_ui" ex_args]
    by (auto simp: ex_ui_fields ex_args_def set_indicativePrice_def)
  then show ?thesis
    by (simp add: ex_auction_def update_no_event [OF l])
qed

lemma ex_state_fields:
  "prices ex_state = map Fin [10, 20, 30, 40]" "volumes ex_state = map Fin [5, 5, 5, 5]"
  "priceLabels ex_state = [''10'', ''20'', ''30'', ''40'']"
  "volumeLabels ex_state = [''5'', ''5'', ''5'', ''5'']"
  "priceScale ex_state = ex_scale" "volumeScale ex_state = ex_scale" "midPrice ex_state = Fin 25"
  "indicativePrice ex_state = Fin 0" "rend ex_state = ex_renderer" "lastEvent ex_state = None"
  "delaunayBuilds ex_state = 0" "ov ex_state = ov ex_ui"
  using update_frame_fields [of ex_env ex_args ex_ui ex_state] ex_state_update
  by (simp_all add: update_no_event [OF ex_ui_fields(1)] ex_ui_fields ex_args_def)

lemma ex_state_bad_fields:
  "prices ex_state_bad = map Fin [10, 20, 30, 40]" "volumes ex_state_bad = map Fin [5, 5, 5, 5]"
  "priceLabels ex_state_bad = [''10'', ''n/a'', ''30'', ''40'']"
  "priceScale ex_state_bad = ex_scale" "volumeScale ex_state_bad = ex_scale" "midPrice ex_state_bad = Fin 25"
  "indicativePrice ex_state_bad = Fin 0" "rend ex_state_bad = ex_renderer" "lastEvent ex_state_bad = None"
  "ov ex_state_bad = ov ex_ui"
  using update_frame_fields [of ex_env ex_args_bad ex_ui ex_state_bad] ex_state_bad_update
  by (simp_all add: update_no_event [OF ex_ui_fields(1)] ex_ui_fields ex_args_def ex_args_bad_def)

lemma ex_auction_fields:
  "prices ex_auction = map Fin [10, 20, 30, 40]" "volumes ex_auction = map Fin [5, 5, 5, 5]"
  "priceLabels ex_auction = [''10'', ''20'', ''30'', ''40'']"
  "volumeLabels ex_auction = [''5'', ''5'', ''5'', ''5'']"
  "priceScale ex_auction = ex_scale" "volumeScale ex_auction = ex_scale" "midPrice ex_auction = Fin 25"
  "indicativePrice ex_auction = Fin 25" "rend ex_auction = ex_renderer" "lastEvent ex_auction = None"
  "delaunayBuilds ex_auction = 0" "ov ex_auction = ov ex_ui"
proof -
  have l: "lastEvent (set_indicativePrice (Fin 25) ex_ui) = None"
    by (simp add: set_indicativePrice_def ex_ui_fields)
  have uf: "update_frame ex_env ex_args (set_indicativePrice (Fin 25) ex_ui) = Inr ex_auction"
    using ex_auction_update by (simp add: update_no_event [OF l])
  show "prices ex_auction = map Fin [10, 20, 30, 40]" "volumes ex_auction = map Fin [5, 5, 5, 5]"
  "priceLabels ex_auction = [''10'', ''20'', ''30'', ''40'']"
  "volumeLabels ex_auction = [''5'', ''5'', ''5'', ''5'']"
  "priceScale ex_auction = ex_scale" "volumeScale ex_auction = ex_scale" "midPrice ex_auction = Fin 25"
  "indicativePrice ex_auction = Fin 25" "rend ex_auction = ex_renderer" "lastEvent ex_auction = None"
  "delaunayBuilds ex_auction = 0" "ov ex_auction = ov ex_ui"
    using update_frame_fields [OF uf]
    by (simp_all add: ex_ui_fields ex_args_def set_indicativePrice_def)
qed

lemma ex_chart_width:
  assumes "rend s = ex_renderer" "volumeScale s = ex_scale"
  shows "chart_width ex_env s = Fin 50"
  using assms
  by (simp add: chart_width_def Let_def ex_renderer_def ex_scale_def formatTick_def ex_env_def js_ge_def js_sub_def)

lemma ex_handles:
  assumes "prices s = map Fin [10, 20, 30, 40]" "x \<noteq> 0"
  shows "handles ex_env (ex_event x y) s"
  using assms by (simp add: handles_def ex_env_def ex_event_def js_truthy_def)

lemma ex_device_x:
  assumes "rend s = ex_renderer"
  shows "device_x (ex_event x y) s = Fin x"
  using assms by (simp add: device_x_def ex_event_def ex_renderer_def)

lemma ex_sides_39:
  "pointer_sides (map Fin [10, 20, 30, 40]) (Fin 39) (Fin 50) (Fin 25) = (- 1, 3, Fin 10, Fin 40)"
  by code_simp

lemma ex_sides_21:
  "pointer_sides (map Fin [10, 20, 30, 40]) (Fin 21) (Fin 50) (Fin 25) = (1, 2, Fin 20, Fin 30)"
  by code_simp

subsection \<open>The two sides in the normal mode\<close>

text \<open>
  Claim C2, as the code has it. In the normal mode, when the handler lays out an event,
  the side is decided by comparing the pointer's device-pixel \<open>x\<close> with half the chart
  width. To the right of it the sell index is the nearest index and the buy index is
  \<open>-1\<close> if the first price is at or after the half width, and otherwise one less than
  the left insertion point of the reflected position \<open>2 * scale(midPrice) - nearestX\<close>;
  otherwise the buy index is the nearest index and the sell index is \<open>-1\<close> if the
  last price is at or before the half width, and otherwise one less than the right
  insertion point of the reflected position. The price labels and indicators are laid
  out from these indices and positions, and an index of \<open>-1\<close> hides that side's group.
\<close>

theorem pointer_sides_in_handler:
  fixes E event s
  defines "x \<equiv> device_x event s"
      and "half \<equiv> js_div (chart_width E s) (Fin 2)"
      and "mid \<equiv> sc_apply (priceScale s) (midPrice s)"
      and "index \<equiv> int (bisectCenter (prices s) (device_x event s))"
  defines "nearestX \<equiv> arr_get (prices s) index"
  defines "reflected \<equiv> js_sub (js_mul (Fin 2) mid) nearestX"
  assumes h: "handles E event s" and n: "\<not> js_truthy (indicativePrice s)"
      and ps: "pointer_sides (prices s) x (chart_width E s) mid = (bi, si, bx, sx)"
  shows "(js_gt x half \<longrightarrow>
            si = index \<and> sx = nearestX \<and> bx = reflected \<and>
            bi = (if js_ge (arr_get (prices s) 0) half then - 1
                  else int (bisectLeft (prices s) reflected) - 1)) \<and>
         (\<not> js_gt x half \<longrightarrow>
            bi = index \<and> bx = nearestX \<and> sx = reflected \<and>
            si = (if js_le (arr_get (prices s) (int (length (prices s)) - 1)) half then - 1
                  else int (bisectRight (prices s) reflected) - 1)) \<and>
         l_text (buyPriceText (ov (onPointerMove E event s))) = str_get (priceLabels s) bi \<and>
         l_text (sellPriceText (ov (onPointerMove E event s))) = str_get (priceLabels s) si \<and>
         i_x (buyIndicator (ov (onPointerMove E event s))) = bx \<and>
         i_x (sellIndicator (ov (onPointerMove E event s))) = sx \<and>
         (bi = - 1 \<longrightarrow> buy_group_hidden (ov (onPointerMove E event s))) \<and>
         (si = - 1 \<longrightarrow> sell_group_hidden (ov (onPointerMove E event s)))"
proof -
  let ?s1 = "s\<lparr>lastEvent := Some event\<rparr>"
  have ps1: "pointer_sides (prices ?s1) x (chart_width E s) (sc_apply (priceScale ?s1) (midPrice ?s1)) = (bi, si, bx, sx)"
    using ps by (simp add: mid_def)
  have m: "onPointerMove E event s = render (pointer_normal E x (chart_width E s) ?s1)"
    using onPointerMove_normal [OF h n] by (simp add: x_def)
  have c: "(js_gt x half \<longrightarrow>
            si = index \<and> sx = nearestX \<and> bx = reflected \<and>
            bi = (if js_ge (arr_get (prices s) 0) half then - 1
                  else int (bisectLeft (prices s) reflected) - 1)) \<and>
         (\<not> js_gt x half \<longrightarrow>
            bi = index \<and> bx = nearestX \<and> sx = reflected \<and>
            si = (if js_le (arr_get (prices s) (int (length (prices s)) - 1)) half then - 1
                  else int (bisectRight (prices s) reflected) - 1))"
    using pointer_sides_cases [OF ps]
    unfolding half_def reflected_def nearestX_def index_def x_def by simp
  have o: "l_text (buyPriceText (ov (onPointerMove E event s))) = str_get (priceLabels s) bi"
    "l_text (sellPriceText (ov (onPointerMove E event s))) = str_get (priceLabels s) si"
    "i_x (buyIndicator (ov (onPointerMove E event s))) = bx"
    "i_x (sellIndicator (ov (onPointerMove E event s))) = sx"
    using pointer_normal_ov(3-6) [OF ps1, of E] by (simp_all add: m)
  have hb: "buy_group_hidden (ov (onPointerMove E event s))" if "bi = - 1"
    using pointer_normal_ov(7) [OF ps1 that, of E] by (simp add: m)
  have hs: "sell_group_hidden (ov (onPointerMove E event s))" if "si = - 1"
    using pointer_normal_ov(8) [OF ps1 that, of E] by (simp add: m)
  show ?thesis using c o hb hs by blast
qed

theorem pointer_sides_in_handler_witness:
  "handles ex_env (ex_event 39 0) ex_state \<and> \<not> js_truthy (indicativePrice ex_state) \<and>
   pointer_sides (prices ex_state) (device_x (ex_event 39 0) ex_state) (chart_width ex_env ex_state)
     (sc_apply (priceScale ex_state) (midPrice ex_state)) = (- 1, 3, Fin 10, Fin 40) \<and>
   buy_group_hidden (ov (onPointerMove ex_env (ex_event 39 0) ex_state)) \<and>
   l_text (sellPriceText (ov (onPointerMove ex_env (ex_event 39 0) ex_state))) = Some ''40'' \<and>
   i_x (sellIndicator (ov (onPointerMove ex_env (ex_event 39 0) ex_state))) = Fin 40"
proof -
  have h: "handles ex_env (ex_event 39 0) ex_state"
    by (rule ex_handles) (simp_all add: ex_state_fields)
  have n: "\<not> js_truthy (indicativePrice ex_state)"
    by (simp add: ex_state_fields js_truthy_def)
  have w: "chart_width ex_env ex_state = Fin 50"
    by (rule ex_chart_width) (simp_all add: ex_state_fields)
  have ps: "pointer_sides (prices ex_state) (device_x (ex_event 39 0) ex_state) (chart_width ex_env ex_state)
     (sc_apply (priceScale ex_state) (midPrice ex_state)) = (- 1, 3, Fin 10, Fin 40)"
    using ex_sides_39 by (simp add: w ex_device_x ex_state_fields ex_scale_def)
  have l: "str_get (priceLabels ex_state) 3 = Some ''40''"
    by (simp add: ex_state_fields str_get_def)
  show ?thesis
    using pointer_sides_in_handler [OF h n ps] h n ps l by simp
qed

text \<open>
  The claim as stated fails twice. In the example chart (prices 10, 20, 30, 40, chart
  width 50, mid price at pixel 25) the pointer at 39 gives the buy index \<open>-1\<close>, an
  absent buy price label and a hidden buy group, although the first price is before the
  mid pixel: the reflected position 10 has no price to its left. And with the mid price
  at pixel 20 and the half width 25, the pointer at 22 is right of the mid-price pixel
  but is handled as the buy side.
\<close>

theorem buy_index_counterexample:
  "pointer_sides (prices ex_state) (device_x (ex_event 39 0) ex_state) (chart_width ex_env ex_state)
     (sc_apply (priceScale ex_state) (midPrice ex_state)) = (- 1, 3, Fin 10, Fin 40) \<and>
   js_lt (arr_get (prices ex_state) 0) (sc_apply (priceScale ex_state) (midPrice ex_state)) \<and>
   js_lt (arr_get (prices ex_state) 0) (js_div (chart_width ex_env ex_state) (Fin 2)) \<and>
   l_text (buyPriceText (ov (onPointerMove ex_env (ex_event 39 0) ex_state))) = None \<and>
   buy_group_hidden (ov (onPointerMove ex_env (ex_event 39 0) ex_state)) \<and>
   pointer_sides (map Fin [10, 20, 30, 40]) (Fin 22) (Fin 50) (Fin 20) = (1, 1, Fin 20, Fin 20) \<and>
   js_gt (Fin 22) (Fin 20)"
proof -
  let ?s1 = "ex_state\<lparr>lastEvent := Some (ex_event 39 0)\<rparr>"
  have h: "handles ex_env (ex_event 39 0) ex_state"
    by (rule ex_handles) (simp_all add: ex_state_fields)
  have n: "\<not> js_truthy (indicativePrice ex_state)"
    by (simp add: ex_state_fields js_truthy_def)
  have w: "chart_width ex_env ex_state = Fin 50"
    by (rule ex_chart_width) (simp_all add: ex_state_fields)
  have ps: "pointer_sides (prices ?s1) (Fin 39) (Fin 50) (sc_apply (priceScale ?s1) (midPrice ?s1))
     = (- 1, 3, Fin 10, Fin 40)"
    using ex_sides_39 by (simp add: ex_state_fields ex_scale_def)
  have m: "onPointerMove ex_env (ex_event 39 0) ex_state = render (pointer_normal ex_env (Fin 39) (Fin 50) ?s1)"
    using onPointerMove_normal [OF h n] by (simp add: w ex_device_x ex_state_fields)
  have t: "l_text (buyPriceText (ov (pointer_normal ex_env (Fin 39) (Fin 50) ?s1))) = None"
    using pointer_normal_ov(3) [OF ps, of ex_env] by (simp add: str_get_def)
  have b: "buy_group_hidden (ov (pointer_normal ex_env (Fin 39) (Fin 50) ?s1))"
    using pointer_normal_ov(7) [OF ps, of ex_env] by simp
  have p: "pointer_sides (prices ex_state) (device_x (ex_event 39 0) ex_state) (chart_width ex_env ex_state)
     (sc_apply (priceScale ex_state) (midPrice ex_state)) = (- 1, 3, Fin 10, Fin 40)"
    using ex_sides_39 by (simp add: w ex_device_x ex_state_fields ex_scale_def)
  have q: "pointer_sides (map Fin [10, 20, 30, 40]) (Fin 22) (Fin 50) (Fin 20) = (1, 1, Fin 20, Fin 20)"
    by code_simp
  have l: "js_lt (arr_get (prices ex_state) 0) (sc_apply (priceScale ex_state) (midPrice ex_state))"
    "js_lt (arr_get (prices ex_state) 0) (js_div (chart_width ex_env ex_state) (Fin 2))"
    by (simp_all add: w ex_state_fields ex_scale_def arr_get_def)
  show ?thesis using p l t b q by (simp add: m js_gt_def)
qed

subsection \<open>The ratio label of a malformed price\<close>

text \<open>
  Claim C5, as the code has it. In the normal mode, when the handler lays out an event
  and the price label at the buy index does not parse (\<open>fRound\<close> gives \<open>NaN\<close>), the
  text of the buy ratio label is \<open>NaN%\<close>; on the sell side it is \<open>+NaN%\<close>. A ratio
  label is visible exactly when the price label of its side is: the parse has no part
  in it.
\<close>

theorem ratio_label_of_malformed_price:
  assumes h: "handles E event s" and n: "\<not> js_truthy (indicativePrice s)"
      and ps: "pointer_sides (prices s) (device_x event s) (chart_width E s)
                 (sc_apply (priceScale s) (midPrice s)) = (bi, si, bx, sx)"
  shows "(fRound (str_get (priceLabels s) bi) = NaN \<longrightarrow>
            l_text (buyVolRatioText (ov (onPointerMove E event s))) = Some ''NaN%'') \<and>
         (fRound (str_get (priceLabels s) si) = NaN \<longrightarrow>
            l_text (sellVolRatioText (ov (onPointerMove E event s))) = Some ''+NaN%'') \<and>
         l_visible (buyVolRatioText (ov (onPointerMove E event s)))
           = l_visible (buyPriceText (ov (onPointerMove E event s))) \<and>
         l_visible (sellVolRatioText (ov (onPointerMove E event s)))
           = l_visible (sellPriceText (ov (onPointerMove E event s)))"
proof -
  let ?s1 = "s\<lparr>lastEvent := Some event\<rparr>"
  have ps1: "pointer_sides (prices ?s1) (device_x event s) (chart_width E s)
               (sc_apply (priceScale ?s1) (midPrice ?s1)) = (bi, si, bx, sx)"
    using ps by simp
  have m: "onPointerMove E event s = render (pointer_normal E (device_x event s) (chart_width E s) ?s1)"
    using onPointerMove_normal [OF h n] by simp
  show ?thesis
    using pointer_normal_ov(1,2,9,10) [OF ps1, of E]
    by (simp add: m ratio_text_NaN)
qed

theorem ratio_label_of_malformed_price_witness:
  "handles ex_env (ex_event 21 0) ex_state_bad \<and> \<not> js_truthy (indicativePrice ex_state_bad) \<and>
   pointer_sides (prices ex_state_bad) (device_x (ex_event 21 0) ex_state_bad)
     (chart_width ex_env ex_state_bad) (sc_apply (priceScale ex_state_bad) (midPrice ex_state_bad))
     = (1, 2, Fin 20, Fin 30) \<and>
   fRound (str_get (priceLabels ex_state_bad) 1) = NaN \<and>
   l_text (buyVolRatioText (ov (onPointerMove ex_env (ex_event 21 0) ex_state_bad))) = Some ''NaN%''"
proof -
  have h: "handles ex_env (ex_event 21 0) ex_state_bad"
    by (rule ex_handles) (simp_all add: ex_state_bad_fields)
  have n: "\<not> js_truthy (indicativePrice ex_state_bad)"
    by (simp add: ex_state_bad_fields js_truthy_def)
  have w: "chart_width ex_env ex_state_bad = Fin 50"
    by (rule ex_chart_width) (simp_all add: ex_state_bad_fields)
  have ps: "pointer_sides (prices ex_state_bad) (device_x (ex_event 21 0) ex_state_bad)
     (chart_width ex_env ex_state_bad) (sc_apply (priceScale ex_state_bad) (midPrice ex_state_bad))
     = (1, 2, Fin 20, Fin 30)"
    using ex_sides_21 by (simp add: w ex_device_x ex_state_bad_fields ex_scale_def)
  have f: "fRound (Some ''n/a'') = NaN" by code_simp
  have l: "fRound (str_get (priceLabels ex_state_bad) 1) = NaN"
    using f by (simp add: ex_state_bad_fields str_get_def)
  show ?thesis
    using ratio_label_of_malformed_price [OF h n ps] h n ps l by simp
qed

text \<open>
  The claim as stated fails: with the price label \<open>n/a\<close> at the buy index, the buy
  ratio label shows \<open>NaN%\<close>.
\<close>

theorem malformed_price_shows_NaN:
  "priceLabels ex_state_bad = [''10'', ''n/a'', ''30'', ''40''] \<and>
   l_text (buyVolRatioText (ov (onPointerMove ex_env (ex_event 21 0) ex_state_bad))) = Some ''NaN%'' \<and>
   l_visible (buyVolRatioText (ov (onPointerMove ex_env (ex_event 21 0) ex_state_bad)))"
proof -
  let ?s1 = "ex_state_bad\<lparr>lastEvent := Some (ex_event 21 0)\<rparr>"
  have h: "handles ex_env (ex_event 21 0) ex_state_bad"
    by (rule ex_handles) (simp_all add: ex_state_bad_fields)
  have n: "\<not> js_truthy (indicativePrice ex_state_bad)"
    by (simp add: ex_state_bad_fields js_truthy_def)
  have w: "chart_width ex_env ex_state_bad = Fin 50"
    by (rule ex_chart_width) (simp_all add: ex_state_bad_fields)
  have ps: "pointer_sides (prices ?s1) (Fin 21) (Fin 50) (sc_apply (priceScale ?s1) (midPrice ?s1))
     = (1, 2, Fin 20, Fin 30)"
    using ex_sides_21 by (simp add: ex_state_bad_fields ex_scale_def)
  have m: "onPointerMove ex_env (ex_event 21 0) ex_state_bad = render (pointer_normal ex_env (Fin 21) (Fin 50) ?s1)"
    using onPointerMove_normal [OF h n] by (simp add: w ex_device_x ex_state_bad_fields)
  have f: "fRound (Some ''n/a'') = NaN" by code_simp
  have t: "l_text (buyVolRatioText (ov (pointer_normal ex_env (Fin 21) (Fin 50) ?s1))) = Some ''NaN%''"
    using pointer_normal_ov(1) [OF ps, of ex_env] f
    by (simp add: ex_state_bad_fields str_get_def ratio_text_NaN)
  have v: "l_visible (buyVolRatioText (ov (pointer_normal ex_env (Fin 21) (Fin 50) ?s1)))"
    using pointer_normal_visible [OF ps, of ex_env]
    by (simp add: ex_state_bad_fields ex_scale_def js_gt_def arr_get_def)
  show ?thesis using t v by (simp add: m ex_state_bad_fields)
qed

subsection \<open>Pointer out\<close>

text \<open>
  What holds of claim C9: \<open>clearPrice\<close> hides the groups of the two sides and clears
  the cached event, and the next \<open>update\<close> does not handle a pointer event.
\<close>

lemma clearPrice_cancels:
  "buy_group_hidden (ov (clearPrice s)) \<and> sell_group_hidden (ov (clearPrice s)) \<and>
   lastEvent (clearPrice s) = None \<and> update E a (clearPrice s) = update_frame E a (clearPrice s)"
  using update_no_event [of "clearPrice s" E a]
  by (simp add: clearPrice_def onPointerOut_fields)

lemma ex_find: "Delaunay_find (zip (map Fin [10, 20, 30, 40]) (map Fin [5, 5, 5, 5])) (Fin 10) (Fin 5) = 0"
  by code_simp

lemma onPointerMove_auction_builds:
  assumes "handles E event s" "js_truthy (indicativePrice s)"
  shows "delaunayBuilds (onPointerMove E event s) = delaunayBuilds s + 1 \<and>
         prices (onPointerMove E event s) = prices s \<and>
         indicativePrice (onPointerMove E event s) = indicativePrice s"
proof -
  from assms(1) obtain gx gy where g: "ev_global event = Some (gx, gy)"
    by (auto simp: handles_def split: option.splits)
  show ?thesis by (simp add: onPointerMove_auction [OF assms g])
qed

lemma update_frame_builds:
  assumes "update E a s = Inr s'" "lastEvent s = None"
  shows "delaunayBuilds s' = delaunayBuilds s"
  using assms update_frame_fields(12) [of E a s s'] by (simp add: update_no_event)

lemma ex_auction_move:
  "onPointerMove ex_env (ex_event 10 5) ex_auction
     = render (pointer_auction ex_env (Fin 10) (Fin 5) (Fin 50)
                 (ex_auction\<lparr>lastEvent := Some (ex_event 10 5)\<rparr>))"
proof -
  have h: "handles ex_env (ex_event 10 5) ex_auction"
    by (rule ex_handles) (simp_all add: ex_auction_fields)
  have n: "js_truthy (indicativePrice ex_auction)"
    by (simp add: ex_auction_fields js_truthy_def)
  have g: "ev_global (ex_event 10 5) = Some (Fin 10, Fin 5)" by (simp add: ex_event_def)
  have w: "chart_width ex_env ex_auction = Fin 50"
    by (rule ex_chart_width) (simp_all add: ex_auction_fields)
  show ?thesis
    using onPointerMove_auction [OF h n g] by (simp add: w ex_device_x ex_auction_fields)
qed

lemma ex_auction_near:
  "l_visible (auctionPriceText (ov (onPointerMove ex_env (ex_event 10 5) ex_auction))) \<and>
   l_visible (auctionVolumeText (ov (onPointerMove ex_env (ex_event 10 5) ex_auction))) \<and>
   i_visible (auctionIndicator (ov (onPointerMove ex_env (ex_event 10 5) ex_auction)))"
proof -
  let ?s1 = "ex_auction\<lparr>lastEvent := Some (ex_event 10 5)\<rparr>"
  have c: "js_lt (js_hypot (js_sub (Fin 10) (arr_get (prices ?s1) (Delaunay_find (zip (prices ?s1) (volumes ?s1)) (Fin 10) (js_mul (Fin 5) (resolution (rend ?s1))))))
                           (js_sub (js_mul (Fin 5) (resolution (rend ?s1)))
                              (arr_get (volumes ?s1) (Delaunay_find (zip (prices ?s1) (volumes ?s1)) (Fin 10) (js_mul (Fin 5) (resolution (rend ?s1)))))))
                 (js_mul (Fin 50) (resolution (rend ?s1)))"
    using ex_find
    by (simp add: ex_auction_fields ex_renderer_def arr_get_def js_sub_def js_hypot_def)
  show ?thesis
    using pointer_auction_near [OF c, of ex_env "Fin 50"] by (simp add: ex_auction_move)
qed

text \<open>
  Claim C9 at a failing input. In auction mode the pointer moves onto the first point
  of the curve, which shows the auction tooltip, hidden until then. After \<open>clearPrice\<close>
  the auction price label, volume label and indicator are still visible.
\<close>

theorem clearPrice_keeps_auction_tooltip:
  "\<not> l_visible (auctionPriceText (ov ex_auction)) \<and>
   l_visible (auctionPriceText (ov (onPointerMove ex_env (ex_event 10 5) ex_auction))) \<and>
   l_visible (auctionPriceText (ov (clearPrice (onPointerMove ex_env (ex_event 10 5) ex_auction)))) \<and>
   l_visible (auctionVolumeText (ov (clearPrice (onPointerMove ex_env (ex_event 10 5) ex_auction)))) \<and>
   i_visible (auctionIndicator (ov (clearPrice (onPointerMove ex_env (ex_event 10 5) ex_auction)))) \<and>
   lastEvent (clearPrice (onPointerMove ex_env (ex_event 10 5) ex_auction)) = None"
proof -
  have i: "\<not> l_visible (auctionPriceText (ov ex_auction))"
    by (simp add: ex_auction_fields ex_ui_def new_UI_def)
  show ?thesis
    using i ex_auction_near by (simp add: clearPrice_def onPointerOut_fields)
qed

subsection \<open>The spatial index of the auction mode\<close>

text \<open>
  Claim C10 at a failing input. In auction mode the \<open>update\<close> call builds no spatial
  index; each of the two pointer moves that follow it builds one.
\<close>

theorem delaunay_built_on_every_pointer_move:
  "update ex_env ex_args (set_indicativePrice (Fin 25) ex_ui) = Inr ex_auction \<and>
   delaunayBuilds ex_auction = 0 \<and>
   delaunayBuilds (onPointerMove ex_env (ex_event 10 5) ex_auction) = 1 \<and>
   delaunayBuilds (onPointerMove ex_env (ex_event 11 5) (onPointerMove ex_env (ex_event 10 5) ex_auction)) = 2"
proof -
  let ?s1 = "onPointerMove ex_env (ex_event 10 5) ex_auction"
  have h: "handles ex_env (ex_event 10 5) ex_auction"
    by (rule ex_handles) (simp_all add: ex_auction_fields)
  have n: "js_truthy (indicativePrice ex_auction)"
    by (simp add: ex_auction_fields js_truthy_def)
  have m1: "delaunayBuilds ?s1 = 1" "prices ?s1 = map Fin [10, 20, 30, 40]"
    "indicativePrice ?s1 = Fin 25"
    using onPointerMove_auction_builds [OF h n] by (simp_all add: ex_auction_fields)
  have h2: "handles ex_env (ex_event 11 5) ?s1"
    by (rule ex_handles) (simp_all add: m1)
  have n2: "js_truthy (indicativePrice ?s1)"
    by (simp add: m1 js_truthy_def)
  have m2: "delaunayBuilds (onPointerMove ex_env (ex_event 11 5) ?s1) = 2"
    using onPointerMove_auction_builds [OF h2 n2] by (simp add: m1)
  show ?thesis
    using ex_auction_update m1 m2 by (simp add: ex_auction_fields)
qed

end
